theory Spec2Isabelle
  imports Complex_Main "HOL-Library.Word" "HOL-Library.List_Lexorder" "HOL-Library.AList"
begin

section \<open>JavaScript strings\<close>

text \<open>
  A JavaScript string is a sequence of 16-bit code units, so a string is a list of
  16-bit words. \<open>js\<close> embeds an ASCII literal; the comparison \<open><\<close> on lists
  (lexicographic, a proper prefix first) is the comparison of strings by code units that
  \<^verbatim>\<open>Array.prototype.sort\<close> uses without a comparator.
\<close>

type_synonym jsstring = "16 word list"

definition js :: "string \<Rightarrow> jsstring" where
  "js s = map of_char s"

subsection \<open>\<^verbatim>\<open>String.prototype.split\<close> on the pattern \<^verbatim>\<open>/[\/\-]/\<close>\<close>

text \<open>
  The pattern matches exactly one code unit, a slash (0x2F) or a hyphen-minus (0x2D). The
  split keeps empty segments (leading, trailing, between adjacent separators), and the
  empty string splits into one empty segment.
\<close>

definition isSeparator :: "16 word \<Rightarrow> bool" where
  "isSeparator c \<longleftrightarrow> c = 0x2F \<or> c = 0x2D"

fun split_sep :: "jsstring \<Rightarrow> jsstring list" where
  "split_sep [] = [[]]"
| "split_sep (c # cs) =
     (if isSeparator c then [] # split_sep cs
      else (c # hd (split_sep cs)) # tl (split_sep cs))"

subsection \<open>\<^verbatim>\<open>parseInt(s, 10)\<close>\<close>

text \<open>
  ECMA-262 \<^verbatim>\<open>parseInt\<close> with radix 10: leading white space and line terminators are
  skipped, one sign is accepted, then the longest run of decimal digits is read; what
  follows the digits is ignored. With no digit the result is NaN, here \<open>None\<close>.
  The result is kept as a mathematical integer: Numbers are binary64 values, and an
  integer below \<open>2^53\<close> is exact; a larger one ends as an Invalid Date in
  \<open>new_Date\<close> below either way, since the time value is clipped at \<open>8.64 * 10^15\<close>.
\<close>

definition isStrWhiteSpaceChar :: "16 word \<Rightarrow> bool" where
  "isStrWhiteSpaceChar c \<longleftrightarrow>
     c = 0x09 \<or> c = 0x0A \<or> c = 0x0B \<or> c = 0x0C \<or> c = 0x0D \<or> c = 0x20 \<or> c = 0xA0 \<or>
     c = 0x1680 \<or> (0x2000 \<le> c \<and> c \<le> 0x200A) \<or> c = 0x2028 \<or> c = 0x2029 \<or>
     c = 0x202F \<or> c = 0x205F \<or> c = 0x3000 \<or> c = 0xFEFF"

definition isDigit :: "16 word \<Rightarrow> bool" where
  "isDigit c \<longleftrightarrow> 0x30 \<le> c \<and> c \<le> 0x39"

definition digitValue :: "16 word \<Rightarrow> int" where
  "digitValue c = uint c - 48"

definition mathInt :: "jsstring \<Rightarrow> int" where
  "mathInt Z = foldl (\<lambda>n c. 10 * n + digitValue c) 0 Z"

definition parseInt :: "jsstring \<Rightarrow> int option" where
  "parseInt inputString =
     (let S = dropWhile isStrWhiteSpaceChar inputString;
          sign = (if S \<noteq> [] \<and> hd S = 0x2D then - 1 else 1);
          S' = (if S \<noteq> [] \<and> (hd S = 0x2B \<or> hd S = 0x2D) then tl S else S);
          Z = takeWhile isDigit S'
      in if Z = [] then None else Some (sign * mathInt Z))"

section \<open>Dates\<close>

text \<open>
  A Date object holds a time value: milliseconds since the epoch in UTC, or NaN
  (\<open>None\<close>, an Invalid Date). The constructor \<^verbatim>\<open>new Date(year, month, date)\<close>
  follows ECMA-262: \<open>MakeFullYear\<close>, \<open>MakeDay\<close>, \<open>MakeTime\<close>, \<open>MakeDate\<close>,
  the conversion \<open>UTC\<close> of local time, and \<open>TimeClip\<close>. The offset of the local
  time zone is defined by the host, so it is a parameter \<open>tza\<close>: the offset in
  milliseconds at a local time value.
\<close>

datatype Date = Date (timeValue: "int option")

definition msPerDay :: int where
  "msPerDay = 86400000"

definition InLeapYear :: "int \<Rightarrow> bool" where
  "InLeapYear y \<longleftrightarrow> y mod 4 = 0 \<and> (y mod 100 \<noteq> 0 \<or> y mod 400 = 0)"

definition DayFromYear :: "int \<Rightarrow> int" where
  "DayFromYear y =
     365 * (y - 1970) + (y - 1969) div 4 - (y - 1901) div 100 + (y - 1601) div 400"

text \<open>The day within the year on which month \<open>mn\<close> (0 to 11) of year \<open>y\<close> begins.\<close>

definition monthStart :: "int \<Rightarrow> int \<Rightarrow> int" where
  "monthStart y mn =
     (let leap = (if InLeapYear y then 1 else 0) in
      if mn = 0 then 0 else if mn = 1 then 31
      else [59, 90, 120, 151, 181, 212, 243, 273, 304, 334] ! nat (mn - 2) + leap)"

definition MakeFullYear :: "int \<Rightarrow> int" where
  "MakeFullYear year = (if 0 \<le> year \<and> year \<le> 99 then 1900 + year else year)"

definition MakeDay :: "int \<Rightarrow> int \<Rightarrow> int \<Rightarrow> int" where
  "MakeDay year month date =
     (let ym = year + month div 12; mn = month mod 12
      in DayFromYear ym + monthStart ym mn + date - 1)"

text \<open>
  The calendar fields of a day number, as ECMA-262 reads them back: \<open>YearFromTime\<close> is
  the year whose days hold the day, \<open>MonthFromTime\<close> the month (0 to 11) whose days
  within that year hold it, \<open>DateFromTime\<close> the day of that month, counted from 1.
\<close>

definition dateFields :: "int \<Rightarrow> int \<Rightarrow> int \<Rightarrow> int \<Rightarrow> bool" where
  "dateFields day y m d \<longleftrightarrow>
     DayFromYear y \<le> day \<and> day < DayFromYear (y + 1) \<and> 0 \<le> m \<and> m \<le> 11
     \<and> monthStart y m \<le> day - DayFromYear y
     \<and> (m = 11 \<or> day - DayFromYear y < monthStart y (m + 1))
     \<and> d = day - DayFromYear y - monthStart y m + 1"

definition MakeTime :: "int \<Rightarrow> int \<Rightarrow> int \<Rightarrow> int \<Rightarrow> int" where
  "MakeTime hour minute sec ms = hour * 3600000 + minute * 60000 + sec * 1000 + ms"

definition MakeDate :: "int \<Rightarrow> int \<Rightarrow> int" where
  "MakeDate day time = day * msPerDay + time"

definition UTC :: "(int \<Rightarrow> int) \<Rightarrow> int \<Rightarrow> int" where
  "UTC tza t = t - tza t"

definition TimeClip :: "int \<Rightarrow> int option" where
  "TimeClip time = (if \<bar>time\<bar> > 8640000000000000 then None else Some time)"

definition new_Date :: "(int \<Rightarrow> int) \<Rightarrow> int \<Rightarrow> int \<Rightarrow> int \<Rightarrow> Date" where
  "new_Date tza year month date =
     (let yr = MakeFullYear year;
          finalDate = MakeDate (MakeDay yr month date) (MakeTime 0 0 0 0)
      in Date (TimeClip (UTC tza finalDate)))"

text \<open>
  \<^verbatim>\<open>a >= b\<close> and \<^verbatim>\<open>a <= b\<close> on Date objects compare the time values as
  Numbers; a comparison with NaN is false.
\<close>

definition date_ge :: "Date \<Rightarrow> Date \<Rightarrow> bool" where
  "date_ge a b = (case (timeValue a, timeValue b) of (Some x, Some y) \<Rightarrow> x \<ge> y | _ \<Rightarrow> False)"

definition date_le :: "Date \<Rightarrow> Date \<Rightarrow> bool" where
  "date_le a b = (case (timeValue a, timeValue b) of (Some x, Some y) \<Rightarrow> x \<le> y | _ \<Rightarrow> False)"

section \<open>The calendar converter\<close>

text \<open>
  \<^verbatim>\<open>rocToGregorian(rocDateStr)\<close>. The argument is declared a string; \<open>None\<close> is
  a \<^verbatim>\<open>null\<close> or \<^verbatim>\<open>undefined\<close> argument, which the first guard sends to
  \<^verbatim>\<open>null\<close> as it does the empty string. The result \<open>None\<close> is \<^verbatim>\<open>null\<close>.
\<close>

definition rocToGregorian :: "(int \<Rightarrow> int) \<Rightarrow> jsstring option \<Rightarrow> Date option" where
  "rocToGregorian tza rocDateStr =
     (case rocDateStr of
        None \<Rightarrow> None
      | Some s \<Rightarrow>
          if s = [] then None
          else let parts = split_sep s in
            if length parts \<noteq> 3 then None
            else (case (parseInt (parts ! 0), parseInt (parts ! 1), parseInt (parts ! 2)) of
                    (Some rocYear, Some month, Some day) \<Rightarrow>
                      (let gregorianYear = rocYear + 1911
                       in Some (new_Date tza gregorianYear (month - 1) day))
                  | _ \<Rightarrow> None))"

section \<open>The classification pass\<close>

subsection \<open>Records and statistics\<close>

text \<open>
  The interface \<^verbatim>\<open>StationData\<close>: eight fields, named in the source by Chinese
  strings. The classification pass reads two of them: the district (the grouping key) and
  the date of the current inspection. Both are declared strings; \<open>None\<close> is a field
  that is missing or \<^verbatim>\<open>null\<close> in the loaded JSON.
\<close>

record StationData =
  stationName :: jsstring
  district :: "jsstring option"
  stationType :: jsstring
  height :: rat
  previousMaintenance :: jsstring
  currentInspection :: "jsstring option"
  improvement :: jsstring
  remarks :: jsstring

record Counts =
  countA :: nat
  countB :: nat
  countC :: nat

text \<open>
  \<^verbatim>\<open>DistrictStats\<close> is a plain object used as a dictionary: its own properties in
  insertion order, one per district. \<open>AList.update\<close> is assignment to a property: an
  existing key keeps its place, a new key goes last.
\<close>

type_synonym DistrictStats = "(jsstring \<times> Counts) list"

subsection \<open>Property lookup on a plain object\<close>

text \<open>
  The object is created by \<^verbatim>\<open>{}\<close>, so its prototype is \<^verbatim>\<open>Object.prototype\<close> and
  \<^verbatim>\<open>stats[district]\<close> finds the properties inherited from it: for the twelve names
  below the value is a function (or, for \<^verbatim>\<open>__proto__\<close>, the prototype object itself),
  which is truthy and is not a counter triple.
\<close>

definition objectPrototypeKeys :: "jsstring list" where
  "objectPrototypeKeys = map js
     [''constructor'', ''hasOwnProperty'', ''isPrototypeOf'', ''propertyIsEnumerable'',
      ''toLocaleString'', ''toString'', ''valueOf'', ''__proto__'',
      ''__defineGetter__'', ''__defineSetter__'', ''__lookupGetter__'', ''__lookupSetter__'']"

datatype property = Own Counts | Inherited | Absent

definition getProperty :: "DistrictStats \<Rightarrow> jsstring \<Rightarrow> property" where
  "getProperty stats key =
     (case map_of stats key of
        Some c \<Rightarrow> Own c
      | None \<Rightarrow> if key \<in> set objectPrototypeKeys then Inherited else Absent)"

text \<open>
  The pass can write to \<^verbatim>\<open>Object.prototype\<close>: for the district \<^verbatim>\<open>__proto__\<close> the
  increment \<^verbatim>\<open>stats[district].countA++\<close> lands on the prototype object and leaves an
  enumerable property \<^verbatim>\<open>countA\<close> with value NaN there (\<^verbatim>\<open>undefined + 1\<close>), which
  every later \<^verbatim>\<open>for ... in\<close> over a plain object enumerates. The part of the global
  environment the pass reads and writes is therefore a state of the model: whether the
  prototype carries such a \<^verbatim>\<open>countA\<close> or \<^verbatim>\<open>countB\<close>, and whether the code runs
  in strict mode (as module code does). A property left on the prototype has the falsy
  value NaN, so \<^verbatim>\<open>!stats[district]\<close> treats it as it treats a missing one:
  \<open>Absent\<close> covers both. An increment on an inherited function writes to that function
  object, which nothing in the pass reads.
\<close>

record Realm =
  strictMode :: bool
  protoCountA :: bool
  protoCountB :: bool

datatype jserror = TypeError

subsection \<open>The callback of \<^verbatim>\<open>data.forEach\<close>\<close>

definition zeroCounts :: Counts where
  "zeroCounts = \<lparr>countA = 0, countB = 0, countC = 0\<rparr>"

definition incrementA :: "Realm \<Rightarrow> DistrictStats \<Rightarrow> jsstring \<Rightarrow> Realm \<times> DistrictStats" where
  "incrementA realm stats d =
     (case map_of stats d of
        Some c \<Rightarrow> (realm, AList.update d (c\<lparr>countA := countA c + 1\<rparr>) stats)
      | None \<Rightarrow> (if d = js ''__proto__'' then realm\<lparr>protoCountA := True\<rparr> else realm, stats))"

definition incrementB :: "Realm \<Rightarrow> DistrictStats \<Rightarrow> jsstring \<Rightarrow> Realm \<times> DistrictStats" where
  "incrementB realm stats d =
     (case map_of stats d of
        Some c \<Rightarrow> (realm, AList.update d (c\<lparr>countB := countB c + 1\<rparr>) stats)
      | None \<Rightarrow> (if d = js ''__proto__'' then realm\<lparr>protoCountB := True\<rparr> else realm, stats))"

definition classifyItem ::
  "(int \<Rightarrow> int) \<Rightarrow> Date \<Rightarrow> Date \<Rightarrow> Date \<Rightarrow> Date \<Rightarrow>
     Realm \<times> DistrictStats \<Rightarrow> StationData \<Rightarrow> Realm \<times> DistrictStats" where
  "classifyItem tza startA endA startB endB state item =
     (let (realm, stats) = state in
      case district item of
        None \<Rightarrow> (realm, stats)
      | Some d \<Rightarrow>
          if d = [] then (realm, stats)
          else
            let stats1 = (if getProperty stats d = Absent
                          then AList.update d zeroCounts stats else stats)
            in case rocToGregorian tza (currentInspection item) of
                 None \<Rightarrow> (realm, stats1)
               | Some itemDate \<Rightarrow>
                   if date_ge itemDate startA \<and> date_le itemDate endA
                   then incrementA realm stats1 d
                   else if date_ge itemDate startB \<and> date_le itemDate endB
                   then incrementB realm stats1 d
                   else (realm, stats1))"

subsection \<open>The final \<^verbatim>\<open>for ... in\<close> loop and the whole pass\<close>

text \<open>
  \<^verbatim>\<open>for (const district in stats)\<close> visits the own keys and then the enumerable
  properties of the prototype that no own key shadows. On such an inherited key the value
  \<^verbatim>\<open>stats[district]\<close> is the Number NaN, and the assignment to its \<^verbatim>\<open>countC\<close>
  throws a TypeError in strict mode and does nothing otherwise.
\<close>

definition inheritedEnumerable :: "Realm \<Rightarrow> DistrictStats \<Rightarrow> jsstring list" where
  "inheritedEnumerable realm stats =
     filter (\<lambda>k. map_of stats k = None)
       ((if protoCountA realm then [js ''countA''] else []) @
        (if protoCountB realm then [js ''countB''] else []))"

definition sumCounts :: "DistrictStats \<Rightarrow> DistrictStats" where
  "sumCounts stats = map (\<lambda>(d, c). (d, c\<lparr>countC := countA c + countB c\<rparr>)) stats"

definition finalPass :: "Realm \<Rightarrow> DistrictStats \<Rightarrow> jserror + DistrictStats" where
  "finalPass realm stats =
     (if strictMode realm \<and> inheritedEnumerable realm stats \<noteq> [] then Inl TypeError
      else Inr (sumCounts stats))"

definition classify ::
  "(int \<Rightarrow> int) \<Rightarrow> Realm \<Rightarrow> StationData list \<Rightarrow> Date \<Rightarrow> Date \<Rightarrow> Date \<Rightarrow> Date \<Rightarrow>
     Realm \<times> DistrictStats" where
  "classify tza realm data startA endA startB endB =
     foldl (classifyItem tza startA endA startB endB) (realm, []) data"

definition calculateYearlyDistrictStats ::
  "(int \<Rightarrow> int) \<Rightarrow> Realm \<Rightarrow> StationData list \<Rightarrow> Date \<Rightarrow> Date \<Rightarrow> Date \<Rightarrow> Date \<Rightarrow>
     Realm \<times> (jserror + DistrictStats)" where
  "calculateYearlyDistrictStats tza realm data startA endA startB endB =
     (let (realm', stats) = classify tza realm data startA endA startB endB
      in (realm', finalPass realm' stats))"

section \<open>Numbers\<close>

text \<open>
  A Number is a binary64 value: NaN, an infinity, or a finite value, which is a rational.
  Arithmetic rounds the exact result to the nearest representable value, ties to even,
  with gradual underflow below \<open>2^-1022\<close> and overflow to an infinity when the
  rounded value reaches \<open>2^1024\<close> (exponent 1023 with the significand rounded up to
  \<open>2^53\<close>, or a larger exponent).
  The two zeros are one value here: the completion pass never divides by a zero and never
  produces a negative number, so the sign of a zero is never observed.
\<close>

datatype jsnum = NaN | PosInf | NegInf | Fin rat

text \<open>The number of binary digits of a positive integer.\<close>

function bitLength :: "int \<Rightarrow> int" where
  "bitLength n = (if n \<le> 0 then 0 else 1 + bitLength (n div 2))"
  by pat_completeness auto
termination
  by (relation "measure nat") auto

declare bitLength.simps [simp del]

definition pow2 :: "int \<Rightarrow> rat" where
  "pow2 e = (if 0 \<le> e then 2 ^ nat e else 1 / 2 ^ nat (- e))"

text \<open>The exponent of a positive rational: the largest \<open>e\<close> with \<open>2^e \<le> x\<close>.\<close>

definition ilog2 :: "rat \<Rightarrow> int" where
  "ilog2 x =
     (let (p, q) = quotient_of x;
          e = bitLength p - bitLength q
      in if pow2 e \<le> x then e else e - 1)"

definition roundTiesToEven :: "rat \<Rightarrow> int" where
  "roundTiesToEven q =
     (let f = \<lfloor>q\<rfloor>; d = q - of_int f
      in if d < 1 / 2 then f else if 1 / 2 < d then f + 1
         else if even f then f else f + 1)"

definition roundDouble :: "rat \<Rightarrow> jsnum" where
  "roundDouble x =
     (if x = 0 then Fin 0
      else
        let a = \<bar>x\<bar>;
            e = max (ilog2 a) (- 1022);
            ulp = pow2 (e - 52);
            m = roundTiesToEven (a / ulp);
            r = of_int m * ulp
        in if 1024 \<le> e \<or> (e = 1023 \<and> m = 2 ^ 53) then (if 0 < x then PosInf else NegInf)
           else Fin (if 0 < x then r else - r))"

definition signedInf :: "bool \<Rightarrow> jsnum" where
  "signedInf positive = (if positive then PosInf else NegInf)"

fun js_add :: "jsnum \<Rightarrow> jsnum \<Rightarrow> jsnum" where
  "js_add NaN _ = NaN"
| "js_add _ NaN = NaN"
| "js_add PosInf NegInf = NaN"
| "js_add NegInf PosInf = NaN"
| "js_add PosInf _ = PosInf"
| "js_add NegInf _ = NegInf"
| "js_add _ PosInf = PosInf"
| "js_add _ NegInf = NegInf"
| "js_add (Fin x) (Fin y) = roundDouble (x + y)"

fun js_mul :: "jsnum \<Rightarrow> jsnum \<Rightarrow> jsnum" where
  "js_mul NaN _ = NaN"
| "js_mul _ NaN = NaN"
| "js_mul (Fin x) (Fin y) = roundDouble (x * y)"
| "js_mul (Fin x) PosInf = (if x = 0 then NaN else signedInf (0 < x))"
| "js_mul (Fin x) NegInf = (if x = 0 then NaN else signedInf (x < 0))"
| "js_mul PosInf (Fin y) = (if y = 0 then NaN else signedInf (0 < y))"
| "js_mul NegInf (Fin y) = (if y = 0 then NaN else signedInf (y < 0))"
| "js_mul PosInf PosInf = PosInf"
| "js_mul NegInf NegInf = PosInf"
| "js_mul PosInf NegInf = NegInf"
| "js_mul NegInf PosInf = NegInf"

fun js_div :: "jsnum \<Rightarrow> jsnum \<Rightarrow> jsnum" where
  "js_div NaN _ = NaN"
| "js_div _ NaN = NaN"
| "js_div (Fin x) (Fin y) =
     (if y = 0 then (if x = 0 then NaN else signedInf (0 < x)) else roundDouble (x / y))"
| "js_div (Fin x) PosInf = Fin 0"
| "js_div (Fin x) NegInf = Fin 0"
| "js_div PosInf (Fin y) = signedInf (0 \<le> y)"
| "js_div NegInf (Fin y) = signedInf (y < 0)"
| "js_div PosInf PosInf = NaN"
| "js_div PosInf NegInf = NaN"
| "js_div NegInf PosInf = NaN"
| "js_div NegInf NegInf = NaN"

text \<open>\<^verbatim>\<open>x > 0\<close>, and the truthiness of a Number (NaN and zero are falsy).\<close>

fun gtZero :: "jsnum \<Rightarrow> bool" where
  "gtZero PosInf = True"
| "gtZero (Fin x) = (0 < x)"
| "gtZero _ = False"

fun truthy :: "jsnum \<Rightarrow> bool" where
  "truthy NaN = False"
| "truthy (Fin x) = (x \<noteq> 0)"
| "truthy _ = True"

text \<open>
  A counter is a Number that starts at 0 and is incremented by 1 once per record at
  most; an array holds fewer than \<open>2^32\<close> records, so a counter is an exact integer.
\<close>

definition numberOfNat :: "nat \<Rightarrow> jsnum" where
  "numberOfNat n = Fin (of_nat n)"

section \<open>The completion pass\<close>

text \<open>
  \<^verbatim>\<open>renderCompletionVisuals(stats, targets)\<close> up to the point where the array
  \<^verbatim>\<open>completionData\<close> is complete; what follows in the source draws that array into
  the page. \<^verbatim>\<open>targets\<close> is a \<^verbatim>\<open>Map\<close>, whose \<^verbatim>\<open>get\<close> returns
  \<^verbatim>\<open>undefined\<close> (\<open>None\<close>) for a missing key. \<^verbatim>\<open>Object.keys(stats).sort()\<close> is
  the own keys in the order of their code units. Reading \<^verbatim>\<open>countC\<close> of a district
  that is no key of \<^verbatim>\<open>stats\<close> would throw a TypeError; the loop runs over the
  object's own keys, so that branch is there for the lookup to be total and is never
  taken (lemma \<open>completionLoop_eq\<close>).
\<close>

type_synonym CompletionData = "(jsstring \<times> jsnum) list"

definition aggregateLabel :: jsstring where
  "aggregateLabel = [0x7E3D, 0x8F44, 0x5340]"

definition percentage :: "jsnum \<Rightarrow> jsnum \<Rightarrow> jsnum" where
  "percentage c target = js_mul (js_div c target) (Fin 100)"

fun completionLoop ::
  "DistrictStats \<Rightarrow> (jsstring \<Rightarrow> jsnum option) \<Rightarrow> jsstring list \<Rightarrow>
     CompletionData \<times> jsnum \<times> jsnum \<Rightarrow> jserror + CompletionData \<times> jsnum \<times> jsnum" where
  "completionLoop stats targets [] acc = Inr acc"
| "completionLoop stats targets (d # ds) (completionData, totalC, totalTarget) =
     (case targets d of
        None \<Rightarrow> completionLoop stats targets ds (completionData, totalC, totalTarget)
      | Some target \<Rightarrow>
          if truthy target \<and> gtZero target
          then (case map_of stats d of
                  None \<Rightarrow> Inl TypeError
                | Some c \<Rightarrow>
                    completionLoop stats targets ds
                      (completionData @ [(d, percentage (numberOfNat (countC c)) target)],
                       js_add totalC (numberOfNat (countC c)),
                       js_add totalTarget target))
          else completionLoop stats targets ds (completionData, totalC, totalTarget))"

definition sortedDistricts :: "DistrictStats \<Rightarrow> jsstring list" where
  "sortedDistricts stats = sort (map fst stats)"

definition renderCompletionVisuals ::
  "DistrictStats \<Rightarrow> (jsstring \<Rightarrow> jsnum option) \<Rightarrow> jserror + CompletionData" where
  "renderCompletionVisuals stats targets =
     (case completionLoop stats targets (sortedDistricts stats) ([], Fin 0, Fin 0) of
        Inl e \<Rightarrow> Inl e
      | Inr (completionData, totalC, totalTarget) \<Rightarrow>
          Inr (if gtZero totalTarget
               then completionData @ [(aggregateLabel, percentage totalC totalTarget)]
               else completionData))"

section \<open>Vocabulary of the statements\<close>

text \<open>
  A record is inside a window when its inspection date resolves and the resolved date
  passes both comparisons of the source, \<^verbatim>\<open>itemDate >= start && itemDate <= end\<close>.
\<close>

definition inWindow :: "(int \<Rightarrow> int) \<Rightarrow> Date \<Rightarrow> Date \<Rightarrow> StationData \<Rightarrow> bool" where
  "inWindow tza start end item =
     (case rocToGregorian tza (currentInspection item) of
        None \<Rightarrow> False
      | Some itemDate \<Rightarrow> date_ge itemDate start \<and> date_le itemDate end)"

text \<open>
  What the completion pass is said to produce, written from the specification: one entry
  for each district, in sorted order, whose target is present and strictly positive, and
  the two sums over those districts.
\<close>

definition specDistrictEntry ::
  "DistrictStats \<Rightarrow> (jsstring \<Rightarrow> jsnum option) \<Rightarrow> jsstring \<Rightarrow> CompletionData" where
  "specDistrictEntry stats targets d =
     (case (map_of stats d, targets d) of
        (Some c, Some target) \<Rightarrow>
          if gtZero target then [(d, percentage (numberOfNat (countC c)) target)] else []
      | _ \<Rightarrow> [])"

definition specDistrictEntries ::
  "DistrictStats \<Rightarrow> (jsstring \<Rightarrow> jsnum option) \<Rightarrow> CompletionData" where
  "specDistrictEntries stats targets =
     concat (map (specDistrictEntry stats targets) (sortedDistricts stats))"

definition specQualifying ::
  "DistrictStats \<Rightarrow> (jsstring \<Rightarrow> jsnum option) \<Rightarrow> jsstring list \<Rightarrow> (jsnum \<times> jsnum) list" where
  "specQualifying stats targets ds =
     concat (map (\<lambda>d. case (map_of stats d, targets d) of
                         (Some c, Some target) \<Rightarrow>
                           if gtZero target then [(numberOfNat (countC c), target)] else []
                       | _ \<Rightarrow> []) ds)"

definition specSumOfCounts :: "DistrictStats \<Rightarrow> (jsstring \<Rightarrow> jsnum option) \<Rightarrow> jsnum" where
  "specSumOfCounts stats targets =
     foldl js_add (Fin 0) (map fst (specQualifying stats targets (sortedDistricts stats)))"

definition specSumOfTargets :: "DistrictStats \<Rightarrow> (jsstring \<Rightarrow> jsnum option) \<Rightarrow> jsnum" where
  "specSumOfTargets stats targets =
     foldl js_add (Fin 0) (map snd (specQualifying stats targets (sortedDistricts stats)))"

text \<open>Concrete inputs for the examples: a record, a fresh environment, the zone of UTC.\<close>

definition station :: "string \<Rightarrow> string \<Rightarrow> StationData" where
  "station d c =
     \<lparr>stationName = [], district = Some (js d), stationType = [], height = 0,
      previousMaintenance = [], currentInspection = Some (js c), improvement = [],
      remarks = []\<rparr>"

definition freshRealm :: Realm where
  "freshRealm = \<lparr>strictMode = True, protoCountA = False, protoCountB = False\<rparr>"

definition utcZone :: "int \<Rightarrow> int" where
  "utcZone t = 0"

text \<open>
  What the per-record callback does to the counters of a district, and what the
  \<^verbatim>\<open>forEach\<close> loop has counted for a district when it ends. A district is
  \<open>eligible\<close> for an entry when it is truthy and does not name a property inherited
  from \<^verbatim>\<open>Object.prototype\<close>.
\<close>

definition bump ::
  "(int \<Rightarrow> int) \<Rightarrow> Date \<Rightarrow> Date \<Rightarrow> Date \<Rightarrow> Date \<Rightarrow> StationData \<Rightarrow> Counts \<Rightarrow> Counts" where
  "bump tza startA endA startB endB item c =
     (if inWindow tza startA endA item then c\<lparr>countA := countA c + 1\<rparr>
      else if inWindow tza startB endB item then c\<lparr>countB := countB c + 1\<rparr>
      else c)"

definition eligible :: "jsstring \<Rightarrow> bool" where
  "eligible d \<longleftrightarrow> d \<noteq> [] \<and> d \<notin> set objectPrototypeKeys"

definition tally ::
  "(int \<Rightarrow> int) \<Rightarrow> Date \<Rightarrow> Date \<Rightarrow> Date \<Rightarrow> Date \<Rightarrow> StationData list \<Rightarrow> jsstring \<Rightarrow> Counts" where
  "tally tza sA eA sB eB data d =
     \<lparr>countA = length (filter (\<lambda>i. district i = Some d \<and> inWindow tza sA eA i) data),
      countB = length (filter (\<lambda>i. district i = Some d \<and> \<not> inWindow tza sA eA i
                                   \<and> inWindow tza sB eB i) data),
      countC = 0\<rparr>"

text \<open>
  The records that leave a \<^verbatim>\<open>countA\<close> or a \<^verbatim>\<open>countB\<close> on the prototype object.
\<close>

definition leavesCountA :: "(int \<Rightarrow> int) \<Rightarrow> Date \<Rightarrow> Date \<Rightarrow> StationData list \<Rightarrow> bool" where
  "leavesCountA tza sA eA data \<longleftrightarrow>
     (\<exists>i\<in>set data. district i = Some (js ''__proto__'') \<and> inWindow tza sA eA i)"

definition leavesCountB ::
  "(int \<Rightarrow> int) \<Rightarrow> Date \<Rightarrow> Date \<Rightarrow> Date \<Rightarrow> Date \<Rightarrow> StationData list \<Rightarrow> bool" where
  "leavesCountB tza sA eA sB eB data \<longleftrightarrow>
     (\<exists>i\<in>set data. district i = Some (js ''__proto__'') \<and> \<not> inWindow tza sA eA i
        \<and> inWindow tza sB eB i)"

section \<open>Properties of the calendar converter\<close>

subsection \<open>Splitting and parsing\<close>

lemma split_sep_nonempty: "split_sep s \<noteq> []"
  by (induction s) auto

lemma split_sep_no_sep: "p \<in> set (split_sep s) \<Longrightarrow> c \<in> set p \<Longrightarrow> \<not> isSeparator c"
proof (induction s arbitrary: p)
  case Nil
  then show ?case by simp
next
  case (Cons a s)
  obtain q qs where q: "split_sep s = q # qs"
    using split_sep_nonempty[of s] by (cases "split_sep s") auto
  show ?case
  proof (cases "isSeparator a")
    case True
    with Cons show ?thesis by auto
  next
    case False
    with Cons.prems q have "p = a # q \<or> p \<in> set qs" by auto
    then show ?thesis
    proof
      assume "p = a # q"
      with Cons.prems(2) have "c = a \<or> c \<in> set q" by auto
      then show ?thesis using False Cons.IH[of q] q by auto
    next
      assume "p \<in> set qs"
      then show ?thesis using Cons.IH[of p] Cons.prems(2) q by auto
    qed
  qed
qed

lemma length_split_sep: "length (split_sep s) = Suc (length (filter isSeparator s))"
proof (induction s)
  case Nil
  then show ?case by simp
next
  case (Cons a s)
  then show ?case using split_sep_nonempty[of s] by (cases "split_sep s") auto
qed

lemma length3E:
  assumes "length xs = 3"
  obtains a b c where "xs = [a, b, c]"
proof -
  from assms obtain a ys where 1: "xs = a # ys" "length ys = 2" by (cases xs) auto
  then obtain b zs where 2: "ys = b # zs" "length zs = 1" by (cases ys) auto
  then obtain c where "zs = [c]" by (cases zs) auto
  with 1 2 that show thesis by blast
qed

lemma digitValue_nonneg: "isDigit c \<Longrightarrow> 0 \<le> digitValue c"
  by (simp add: isDigit_def digitValue_def word_le_def)

lemma foldl_digits_nonneg:
  "0 \<le> n \<Longrightarrow> \<forall>c\<in>set Z. isDigit c \<Longrightarrow> 0 \<le> foldl (\<lambda>n c. 10 * n + digitValue c) n Z"
proof (induction Z arbitrary: n)
  case Nil
  then show ?case by simp
next
  case (Cons a Z)
  have "0 \<le> 10 * n + digitValue a" using Cons.prems digitValue_nonneg[of a] by simp
  then show ?case using Cons by simp
qed

lemma mathInt_nonneg: "0 \<le> mathInt (takeWhile isDigit S)"
  unfolding mathInt_def
  by (rule foldl_digits_nonneg) (auto dest: set_takeWhileD)

text \<open>
  A segment of the split holds no hyphen, so \<open>parseInt\<close> never reads a minus sign
  there: the parsed year, month and day are never negative.
\<close>

lemma parseInt_nonneg:
  assumes "\<forall>c\<in>set seg. \<not> isSeparator c" "parseInt seg = Some n"
  shows "0 \<le> n"
proof -
  let ?S = "dropWhile isStrWhiteSpaceChar seg"
  have "?S \<noteq> [] \<Longrightarrow> hd ?S \<in> set seg"
    by (metis hd_in_set set_dropWhileD)
  then have "\<not> (?S \<noteq> [] \<and> hd ?S = 0x2D)"
    using assms(1) by (auto simp: isSeparator_def)
  then show ?thesis
    using assms(2) mathInt_nonneg
    by (auto simp: parseInt_def Let_def split: if_splits)
qed

lemma parseInt_leading_digit:
  assumes "seg \<noteq> []" "isDigit (hd seg)"
  shows "parseInt seg = Some (mathInt (takeWhile isDigit seg))"
proof -
  obtain c cs where seg: "seg = c # cs" using assms(1) by (cases seg) auto
  have d: "isDigit c" using assms(2) seg by simp
  have "\<not> isStrWhiteSpaceChar c" "c \<noteq> 0x2B" "c \<noteq> 0x2D"
    using d by (auto simp: isDigit_def isStrWhiteSpaceChar_def word_le_def)
  then show ?thesis using d seg by (simp add: parseInt_def)
qed

subsection \<open>The date constructor\<close>

lemma MakeDay_month_rollover:
  "MakeDay year (month + 12 * k) date = MakeDay (year + k) month date"
  by (simp add: MakeDay_def Let_def add.assoc)

lemma MakeDay_day_linear: "MakeDay year month (date + j) = MakeDay year month date + j"
  by (simp add: MakeDay_def Let_def)

subsection \<open>The converter\<close>

lemma rocToGregorian_Some:
  assumes "s \<noteq> []" "split_sep s = [a, b, c]"
    "parseInt a = Some y" "parseInt b = Some m" "parseInt c = Some d"
  shows "rocToGregorian tza (Some s) = Some (new_Date tza (y + 1911) (m - 1) d)"
  using assms by (simp add: rocToGregorian_def)

lemma rocToGregorian_None_iff:
  "rocToGregorian tza (Some s) = None \<longleftrightarrow>
     length (split_sep s) \<noteq> 3 \<or> (\<exists>seg\<in>set (split_sep s). parseInt seg = None)"
proof (cases "length (split_sep s) = 3")
  case False
  then show ?thesis by (simp add: rocToGregorian_def Let_def)
next
  case True
  then obtain a b c where abc: "split_sep s = [a, b, c]" by (rule length3E)
  have ne: "s \<noteq> []" using True by auto
  show ?thesis using abc ne
    by (cases "parseInt a"; cases "parseInt b"; cases "parseInt c")
      (simp_all add: rocToGregorian_def)
qed

text \<open>
  Claim C2. A date string that splits into three segments, each of which \<open>parseInt\<close>
  reads as an integer, resolves to the date the constructor builds from the year
  \<open>first + 1911\<close> (taken as it is: it is never in the range 0 to 99 that the
  constructor maps to the 1900s), the 0-indexed month \<open>second - 1\<close> and the day
  \<open>third\<close>. Nothing checks the ranges: twelve more months are one more year, and a
  larger day is that many days later. \<^verbatim>\<open>"113/05/20"\<close> resolves to the date of
  \<^verbatim>\<open>new Date(2024, 4, 20)\<close>, 20 May 2024, and \<^verbatim>\<open>"113-13-01"\<close> to the one of
  \<^verbatim>\<open>new Date(2025, 0, 1)\<close>, 1 January 2025; in the zone of UTC these are the
  time values 1716163200000 and 1735689600000, and the days the constructor computes
  from (2024, 4, 20) and from (2024, 12, 1) read back as year 2024, month 4, day 20 and
  as year 2025, month 0, day 1.
\<close>

theorem rocToGregorian_resolves:
  assumes "s \<noteq> []" "split_sep s = [a, b, c]"
    "parseInt a = Some y" "parseInt b = Some m" "parseInt c = Some d"
  shows "rocToGregorian tza (Some s) =
           Some (Date (TimeClip (UTC tza (MakeDay (y + 1911) (m - 1) d * msPerDay))))
         \<and> MakeDay (y + 1911) (m - 1 + 12 * k) (d + j) = MakeDay (y + 1911 + k) (m - 1) d + j
         \<and> rocToGregorian tza (Some (js ''113/05/20'')) = Some (new_Date tza 2024 4 20)
         \<and> rocToGregorian tza (Some (js ''113-13-01'')) = Some (new_Date tza 2025 0 1)
         \<and> new_Date utcZone 2024 4 20 = Date (Some 1716163200000)
         \<and> new_Date utcZone 2025 0 1 = Date (Some 1735689600000)
         \<and> dateFields (MakeDay (113 + 1911) (5 - 1) 20) 2024 4 20
         \<and> dateFields (MakeDay (113 + 1911) (13 - 1) 1) 2025 0 1"
proof -
  have "a \<in> set (split_sep s)" using assms(2) by simp
  then have "0 \<le> y" using parseInt_nonneg[of a y] split_sep_no_sep[of a s] assms(3) by blast
  then have fy: "MakeFullYear (y + 1911) = y + 1911" by (simp add: MakeFullYear_def)
  have 1: "rocToGregorian tza (Some s) =
           Some (Date (TimeClip (UTC tza (MakeDay (y + 1911) (m - 1) d * msPerDay))))"
    using rocToGregorian_Some[OF assms, of tza] fy
    by (simp add: new_Date_def MakeDate_def MakeTime_def)
  have 2: "MakeDay (y + 1911) (m - 1 + 12 * k) (d + j) = MakeDay (y + 1911 + k) (m - 1) d + j"
    by (simp only: MakeDay_month_rollover MakeDay_day_linear)
  have 3: "rocToGregorian tza (Some (js ''113/05/20'')) = Some (new_Date tza 2024 4 20)"
    by code_simp
  have 4: "rocToGregorian tza (Some (js ''113-13-01'')) = Some (new_Date tza 2025 0 1)"
    by code_simp
  have 5: "new_Date utcZone 2024 4 20 = Date (Some 1716163200000)" by code_simp
  have 6: "new_Date utcZone 2025 0 1 = Date (Some 1735689600000)" by code_simp
  have 7: "dateFields (MakeDay (113 + 1911) (5 - 1) 20) 2024 4 20" by code_simp
  have 8: "dateFields (MakeDay (113 + 1911) (13 - 1) 1) 2025 0 1" by code_simp
  show ?thesis using 1 2 3 4 5 6 7 8 by blast
qed

theorem rocToGregorian_resolves_witness:
  "js ''113/05/20'' \<noteq> [] \<and> split_sep (js ''113/05/20'') = [js ''113'', js ''05'', js ''20'']
   \<and> parseInt (js ''113'') = Some 113 \<and> parseInt (js ''05'') = Some 5
   \<and> parseInt (js ''20'') = Some 20
   \<and> rocToGregorian utcZone (Some (js ''113/05/20'')) = Some (Date (Some 1716163200000))"
proof -
  have h1: "js ''113/05/20'' \<noteq> []" by code_simp
  have h2: "split_sep (js ''113/05/20'') = [js ''113'', js ''05'', js ''20'']" by code_simp
  have h3: "parseInt (js ''113'') = Some 113" by code_simp
  have h4: "parseInt (js ''05'') = Some 5" by code_simp
  have h5: "parseInt (js ''20'') = Some 20" by code_simp
  have v: "Date (TimeClip (UTC utcZone (MakeDay (113 + 1911) (5 - 1) 20 * msPerDay)))
             = Date (Some 1716163200000)" by code_simp
  from rocToGregorian_resolves[OF h1 h2 h3 h4 h5, of utcZone 0 0]
  have "rocToGregorian utcZone (Some (js ''113/05/20'')) =
          Some (Date (TimeClip (UTC utcZone (MakeDay (113 + 1911) (5 - 1) 20 * msPerDay))))"
    by blast
  then show ?thesis using h1 h2 h3 h4 h5 v by simp
qed

lemma parseInt_no_digit:
  assumes "\<forall>c\<in>set seg. \<not> isDigit c"
  shows "parseInt seg = None"
proof -
  let ?S = "dropWhile isStrWhiteSpaceChar seg"
  let ?S' = "if ?S \<noteq> [] \<and> (hd ?S = 0x2B \<or> hd ?S = 0x2D) then tl ?S else ?S"
  have "set ?S \<subseteq> set seg" by (auto dest: set_dropWhileD)
  moreover have "set ?S' \<subseteq> set ?S"
    by (cases ?S) (simp_all add: subset_insertI2)
  ultimately have "\<forall>c\<in>set ?S'. \<not> isDigit c" using assms by blast
  then have "takeWhile isDigit ?S' = []" by (cases ?S') auto
  then show ?thesis by (simp add: parseInt_def Let_def)
qed

text \<open>
  Claim C10. A string is unresolvable exactly when it does not split into three segments
  or \<open>parseInt\<close> reads no integer (NaN) from one of the segments; that happens only
  for a segment that does not start with a decimal digit. A segment that starts with
  digits is read up to the first other character, so \<^verbatim>\<open>"113a/05/20"\<close>, whose first
  segment is not purely numeric, resolves, and to the same date as \<^verbatim>\<open>"113/05/20"\<close>.
\<close>
theorem rocToGregorian_lenient:
  "(rocToGregorian tza (Some s) = None \<longleftrightarrow>
      length (split_sep s) \<noteq> 3 \<or> (\<exists>seg\<in>set (split_sep s). parseInt seg = None))
   \<and> (parseInt seg = None \<longrightarrow> seg = [] \<or> \<not> isDigit (hd seg))
   \<and> (seg \<noteq> [] \<and> isDigit (hd seg) \<longrightarrow> parseInt seg = Some (mathInt (takeWhile isDigit seg)))
   \<and> split_sep (js ''113a/05/20'') = [js ''113a'', js ''05'', js ''20'']
   \<and> \<not> list_all isDigit (js ''113a'')
   \<and> rocToGregorian tza (Some (js ''113a/05/20'')) = Some (new_Date tza 2024 4 20)"
proof -
  have 1: "parseInt seg = None \<longrightarrow> seg = [] \<or> \<not> isDigit (hd seg)"
    using parseInt_leading_digit[of seg] by auto
  have 2: "seg \<noteq> [] \<and> isDigit (hd seg) \<longrightarrow> parseInt seg = Some (mathInt (takeWhile isDigit seg))"
    using parseInt_leading_digit[of seg] by auto
  have 3: "split_sep (js ''113a/05/20'') = [js ''113a'', js ''05'', js ''20'']" by code_simp
  have 4: "\<not> list_all isDigit (js ''113a'')" by code_simp
  have 5: "rocToGregorian tza (Some (js ''113a/05/20'')) = Some (new_Date tza 2024 4 20)"
    by code_simp
  show ?thesis using rocToGregorian_None_iff[of tza s] 1 2 3 4 5 by blast
qed

theorem rocToGregorian_lenient_witness:
  "js ''113a'' \<noteq> [] \<and> isDigit (hd (js ''113a'')) \<and> parseInt (js ''113a'') = Some 113
   \<and> length (split_sep (js ''113a/05/20'')) = 3
   \<and> rocToGregorian utcZone (Some (js ''113a/05/20'')) \<noteq> None
   \<and> parseInt (js ''abc'') = None
   \<and> rocToGregorian utcZone (Some (js ''abc/05/20'')) = None"
proof -
  have h1: "js ''113a'' \<noteq> []" by code_simp
  have h2: "isDigit (hd (js ''113a''))" by code_simp
  have v: "mathInt (takeWhile isDigit (js ''113a'')) = 113" by code_simp
  have p: "parseInt (js ''113a'') = Some 113"
    using rocToGregorian_lenient[of utcZone "js ''113a/05/20''" "js ''113a''"] h1 h2 v by simp
  have l: "length (split_sep (js ''113a/05/20'')) = 3" by code_simp
  have r: "rocToGregorian utcZone (Some (js ''113a/05/20'')) \<noteq> None"
    using rocToGregorian_lenient[of utcZone "js ''113a/05/20''" "js ''113a''"] by simp
  have a: "parseInt (js ''abc'') = None" by code_simp
  have m: "js ''abc'' \<in> set (split_sep (js ''abc/05/20''))" by code_simp
  have n: "rocToGregorian utcZone (Some (js ''abc/05/20'')) = None"
    using rocToGregorian_lenient[of utcZone "js ''abc/05/20''" "js ''abc''"] a m by blast
  show ?thesis using h1 h2 p l r a n by blast
qed

text \<open>
  Claim C3, as stated, is false: \<^verbatim>\<open>"113a/05/20"\<close> has a segment that is not numeric
  and is resolved all the same.
\<close>
theorem rocToGregorian_nonnumeric_counterexample:
  "split_sep (js ''113a/05/20'') = [js ''113a'', js ''05'', js ''20'']
   \<and> \<not> list_all isDigit (js ''113a'')
   \<and> rocToGregorian utcZone (Some (js ''113a/05/20'')) = Some (Date (Some 1716163200000))"
  by code_simp

text \<open>
  Claim C3, amended. The converter returns \<^verbatim>\<open>null\<close> for a \<^verbatim>\<open>null\<close> argument, for
  the empty string, for a string whose number of segments is not three (so for every
  string with exactly one separator, which has two segments), and for a string with a
  segment from which \<open>parseInt\<close> reads no integer, as every segment without a digit
  is; \<^verbatim>\<open>"abc/05/20"\<close> is unresolvable. The function is total: no input makes it fail.
\<close>

theorem rocToGregorian_unresolvable:
  "rocToGregorian tza None = None
   \<and> rocToGregorian tza (Some []) = None
   \<and> (length (split_sep s) \<noteq> 3 \<longrightarrow> rocToGregorian tza (Some s) = None)
   \<and> (length (filter isSeparator s) = 1 \<longrightarrow> rocToGregorian tza (Some s) = None)
   \<and> (seg \<in> set (split_sep s) \<and> parseInt seg = None \<longrightarrow> rocToGregorian tza (Some s) = None)
   \<and> ((\<forall>c\<in>set seg. \<not> isDigit c) \<longrightarrow> parseInt seg = None)
   \<and> rocToGregorian tza (Some (js ''abc/05/20'')) = None"
proof -
  have 1: "rocToGregorian tza None = None" "rocToGregorian tza (Some []) = None"
    by (simp_all add: rocToGregorian_def)
  have 2: "length (split_sep s) \<noteq> 3 \<longrightarrow> rocToGregorian tza (Some s) = None"
    using rocToGregorian_None_iff[of tza s] by blast
  have 3: "length (filter isSeparator s) = 1 \<longrightarrow> rocToGregorian tza (Some s) = None"
    using rocToGregorian_None_iff[of tza s] length_split_sep[of s] by simp
  have 4: "seg \<in> set (split_sep s) \<and> parseInt seg = None \<longrightarrow> rocToGregorian tza (Some s) = None"
    using rocToGregorian_None_iff[of tza s] by blast
  have 5: "(\<forall>c\<in>set seg. \<not> isDigit c) \<longrightarrow> parseInt seg = None"
    using parseInt_no_digit[of seg] by blast
  have 6: "rocToGregorian tza (Some (js ''abc/05/20'')) = None" by code_simp
  show ?thesis using 1 2 3 4 5 6 by blast
qed

theorem rocToGregorian_unresolvable_witness:
  "length (split_sep (js ''113/05'')) \<noteq> 3
   \<and> length (filter isSeparator (js ''113/05'')) = 1
   \<and> rocToGregorian utcZone (Some (js ''113/05'')) = None
   \<and> js '''' \<in> set (split_sep (js ''113//20'')) \<and> list_all (\<lambda>c. \<not> isDigit c) (js '''')
   \<and> parseInt (js '''') = None
   \<and> rocToGregorian utcZone (Some (js ''113//20'')) = None"
proof -
  have a: "length (split_sep (js ''113/05'')) \<noteq> 3" by code_simp
  have b: "length (filter isSeparator (js ''113/05'')) = 1" by code_simp
  have c: "rocToGregorian utcZone (Some (js ''113/05'')) = None"
    using rocToGregorian_unresolvable[of utcZone "js ''113/05''" "[]"] b by blast
  have d: "js '''' \<in> set (split_sep (js ''113//20''))" by code_simp
  have e: "\<forall>c\<in>set (js ''''). \<not> isDigit c" by (simp add: js_def)
  have f: "parseInt (js '''') = None"
    using rocToGregorian_unresolvable[of utcZone "js ''113//20''" "js ''''"] e by blast
  have g: "rocToGregorian utcZone (Some (js ''113//20'')) = None"
    using rocToGregorian_unresolvable[of utcZone "js ''113//20''" "js ''''"] d f by blast
  have e': "list_all (\<lambda>c. \<not> isDigit c) (js '''')" by (simp add: js_def)
  show ?thesis using a b c d e' f g by blast
qed

section \<open>Properties of the classification pass\<close>

lemma classifyItem_skip:
  "district item = None \<or> district item = Some [] \<Longrightarrow>
     classifyItem tza sA eA sB eB (realm, stats) item = (realm, stats)"
  by (auto simp: classifyItem_def)

lemma incrementA_own:
  "map_of st d = Some c \<Longrightarrow>
     incrementA realm st d = (realm, AList.update d (c\<lparr>countA := countA c + 1\<rparr>) st)"
  by (simp add: incrementA_def)

lemma incrementB_own:
  "map_of st d = Some c \<Longrightarrow>
     incrementB realm st d = (realm, AList.update d (c\<lparr>countB := countB c + 1\<rparr>) st)"
  by (simp add: incrementB_def)

lemma classifyItem_unfold:
  assumes "district item = Some d" "d \<noteq> []"
  shows "classifyItem tza sA eA sB eB (realm, stats) item =
     (let stats1 = (if getProperty stats d = Absent
                    then AList.update d zeroCounts stats else stats)
      in if inWindow tza sA eA item then incrementA realm stats1 d
         else if inWindow tza sB eB item then incrementB realm stats1 d
         else (realm, stats1))"
  using assms
  by (cases "rocToGregorian tza (currentInspection item)")
    (simp_all add: classifyItem_def inWindow_def Let_def)

lemma classifyItem_eligible:
  assumes "district item = Some d" "eligible d"
  shows "classifyItem tza sA eA sB eB (realm, stats) item =
           (realm, AList.update d
              (bump tza sA eA sB eB item (case map_of stats d of None \<Rightarrow> zeroCounts | Some c \<Rightarrow> c))
              stats)"
proof (cases "map_of stats d")
  case None
  then have g: "getProperty stats d = Absent"
    using assms(2) by (simp add: getProperty_def eligible_def)
  have m: "map_of (AList.update d zeroCounts stats) d = Some zeroCounts"
    by (simp add: update_conv')
  have ne: "d \<noteq> []" using assms(2) by (simp add: eligible_def)
  show ?thesis
    unfolding classifyItem_unfold[OF assms(1) ne]
    using None g incrementA_own[OF m] incrementB_own[OF m]
    by (simp add: bump_def Let_def)
next
  case (Some c)
  then have g: "getProperty stats d \<noteq> Absent" by (simp add: getProperty_def)
  have t: "AList.update d c stats = stats" using Some by (rule update_triv)
  have ne: "d \<noteq> []" using assms(2) by (simp add: eligible_def)
  show ?thesis
    unfolding classifyItem_unfold[OF assms(1) ne]
    using Some g t incrementA_own[OF Some] incrementB_own[OF Some]
    by (simp add: bump_def Let_def)
qed

lemma classifyItem_inherited:
  assumes "district item = Some d" "d \<noteq> []" "d \<in> set objectPrototypeKeys" "map_of stats d = None"
  shows "classifyItem tza sA eA sB eB (realm, stats) item =
           (if d = js ''__proto__'' \<and> inWindow tza sA eA item then realm\<lparr>protoCountA := True\<rparr>
            else if d = js ''__proto__'' \<and> inWindow tza sB eB item then realm\<lparr>protoCountB := True\<rparr>
            else realm, stats)"
proof -
  have g: "getProperty stats d \<noteq> Absent" using assms by (simp add: getProperty_def)
  show ?thesis
    unfolding classifyItem_unfold[OF assms(1,2)]
    using assms(4) g by (simp add: incrementA_def incrementB_def Let_def)
qed

lemma classify_Nil: "classify tza realm [] sA eA sB eB = (realm, [])"
  by (simp add: classify_def)

lemma classify_snoc:
  "classify tza realm (data @ [x]) sA eA sB eB =
     classifyItem tza sA eA sB eB (classify tza realm data sA eA sB eB) x"
  by (simp add: classify_def)

lemma tally_Nil: "tally tza sA eA sB eB [] d = zeroCounts"
  by (simp add: tally_def zeroCounts_def)

lemma tally_snoc_other:
  "district x \<noteq> Some d \<Longrightarrow> tally tza sA eA sB eB (data @ [x]) d = tally tza sA eA sB eB data d"
  by (simp add: tally_def)

lemma tally_snoc_same:
  "district x = Some d \<Longrightarrow>
     tally tza sA eA sB eB (data @ [x]) d = bump tza sA eA sB eB x (tally tza sA eA sB eB data d)"
  by (simp add: tally_def bump_def)

lemma classify_map_of:
  "map_of (snd (classify tza realm data sA eA sB eB)) d =
     (if eligible d \<and> (\<exists>i\<in>set data. district i = Some d)
      then Some (tally tza sA eA sB eB data d) else None)"
proof (induction data arbitrary: d rule: rev_induct)
  case Nil
  then show ?case by (simp add: classify_Nil)
next
  case (snoc x data)
  obtain r1 st1 where c: "classify tza realm data sA eA sB eB = (r1, st1)"
    by (cases "classify tza realm data sA eA sB eB")
  have IH: "\<And>k. map_of st1 k =
     (if eligible k \<and> (\<exists>i\<in>set data. district i = Some k)
      then Some (tally tza sA eA sB eB data k) else None)"
    using snoc.IH c by simp
  show ?case
  proof (cases "district x")
    case None
    then have "classify tza realm (data @ [x]) sA eA sB eB = (r1, st1)"
      by (simp add: classify_snoc c classifyItem_skip)
    then show ?thesis using IH[of d] None by (simp add: tally_snoc_other)
  next
    case (Some e)
    show ?thesis
    proof (cases "e = []")
      case True
      then have "classify tza realm (data @ [x]) sA eA sB eB = (r1, st1)"
        using Some by (simp add: classify_snoc c classifyItem_skip)
      moreover have "eligible d \<Longrightarrow> district x \<noteq> Some d"
        using Some True by (auto simp: eligible_def)
      ultimately show ?thesis using IH[of d] by (auto simp: tally_snoc_other)
    next
      case False
      show ?thesis
      proof (cases "eligible e")
        case True
        have st: "classify tza realm (data @ [x]) sA eA sB eB =
          (r1, AList.update e (bump tza sA eA sB eB x
                 (case map_of st1 e of None \<Rightarrow> zeroCounts | Some c \<Rightarrow> c)) st1)"
          by (simp add: classify_snoc c classifyItem_eligible[OF Some True])
        show ?thesis
        proof (cases "d = e")
          case deq: True
          have "(case map_of st1 e of None \<Rightarrow> zeroCounts | Some c \<Rightarrow> c) = tally tza sA eA sB eB data e"
            using IH[of e] True
            by (cases "\<exists>i\<in>set data. district i = Some e")
               (auto simp: tally_def zeroCounts_def filter_empty_conv)
          then show ?thesis using st deq True Some
            by (simp add: update_conv' tally_snoc_same)
        next
          case dne: False
          then have "district x \<noteq> Some d" using Some by simp
          then show ?thesis using st dne IH[of d]
            by (simp add: update_conv' tally_snoc_other)
        qed
      next
        case inel: False
        then have ek: "e \<in> set objectPrototypeKeys" using False by (simp add: eligible_def)
        have "map_of st1 e = None" using IH[of e] inel by simp
        then have st: "snd (classify tza realm (data @ [x]) sA eA sB eB) = st1"
          by (simp add: classify_snoc c classifyItem_inherited[OF Some False ek])
        have "eligible d \<Longrightarrow> district x \<noteq> Some d" using Some inel by auto
        then show ?thesis using st IH[of d] by (auto simp: tally_snoc_other)
      qed
    qed
  qed
qed

lemma classifyItem_distinct:
  assumes "distinct (map fst st)"
  shows "distinct (map fst (snd (classifyItem tza sA eA sB eB (r, st) x)))"
proof (cases "district x")
  case None
  then show ?thesis using assms by (simp add: classifyItem_skip)
next
  case (Some d)
  show ?thesis
  proof (cases "d = []")
    case True
    then show ?thesis using assms Some by (simp add: classifyItem_skip)
  next
    case False
    show ?thesis
      unfolding classifyItem_unfold[OF Some False]
      using assms
      by (auto simp: Let_def incrementA_def incrementB_def distinct_update split: option.splits)
  qed
qed

lemma classify_distinct: "distinct (map fst (snd (classify tza realm data sA eA sB eB)))"
proof (induction data rule: rev_induct)
  case Nil
  then show ?case by (simp add: classify_Nil)
next
  case (snoc x data)
  obtain r1 st1 where c: "classify tza realm data sA eA sB eB = (r1, st1)"
    by (cases "classify tza realm data sA eA sB eB")
  then show ?case using snoc classifyItem_distinct[of st1 tza sA eA sB eB r1 x]
    by (simp add: classify_snoc)
qed

lemma classify_entry:
  assumes "(d, c) \<in> set (snd (classify tza realm data sA eA sB eB))"
  shows "c = tally tza sA eA sB eB data d \<and> eligible d \<and> (\<exists>i\<in>set data. district i = Some d)"
proof -
  have "map_of (snd (classify tza realm data sA eA sB eB)) d = Some c"
    using assms classify_distinct by simp
  then show ?thesis unfolding classify_map_of by (simp split: if_splits)
qed

lemma classify_keys:
  "fst ` set (snd (classify tza realm data sA eA sB eB)) =
     {d. eligible d \<and> (\<exists>i\<in>set data. district i = Some d)}"
proof -
  have "fst ` set (snd (classify tza realm data sA eA sB eB)) =
          dom (map_of (snd (classify tza realm data sA eA sB eB)))"
    by (simp add: dom_map_of_conv_image_fst)
  also have "\<dots> = {d. eligible d \<and> (\<exists>i\<in>set data. district i = Some d)}"
    unfolding classify_map_of by (auto simp: dom_def)
  finally show ?thesis .
qed

lemma map_of_sumCounts:
  "map_of (sumCounts st) d = map_option (\<lambda>c. c\<lparr>countC := countA c + countB c\<rparr>) (map_of st d)"
  by (induction st) (auto simp: sumCounts_def)

lemma keys_sumCounts: "map fst (sumCounts st) = map fst st"
  by (induction st) (auto simp: sumCounts_def)

text \<open>The stats do not depend on the environment; the environment only collects flags.\<close>

lemma classifyItem_stats_realm:
  "snd (classifyItem tza sA eA sB eB (r, st) x) = snd (classifyItem tza sA eA sB eB (r', st) x)"
proof (cases "district x")
  case None
  then show ?thesis by (simp add: classifyItem_skip)
next
  case (Some d)
  show ?thesis
  proof (cases "d = []")
    case True
    then show ?thesis using Some by (simp add: classifyItem_skip)
  next
    case False
    show ?thesis
      unfolding classifyItem_unfold[OF Some False]
      by (auto simp: Let_def incrementA_def incrementB_def split: option.splits)
  qed
qed

lemma classify_stats_realm:
  "snd (classify tza r data sA eA sB eB) = snd (classify tza r' data sA eA sB eB)"
proof (induction data rule: rev_induct)
  case Nil
  then show ?case by (simp add: classify_Nil)
next
  case (snoc x data)
  obtain r1 st1 where c: "classify tza r data sA eA sB eB = (r1, st1)"
    by (cases "classify tza r data sA eA sB eB")
  obtain r2 st2 where c': "classify tza r' data sA eA sB eB = (r2, st2)"
    by (cases "classify tza r' data sA eA sB eB")
  have "st1 = st2" using snoc c c' by simp
  then show ?case using classifyItem_stats_realm[of tza sA eA sB eB r1 st1 x r2]
    by (simp add: classify_snoc c c')
qed

lemma proto_not_eligible: "\<not> eligible (js ''__proto__'')"
  by (simp add: eligible_def objectPrototypeKeys_def)

lemma proto_nonempty: "js ''__proto__'' \<noteq> []"
  by (simp add: js_def)

lemma classify_realm:
  "fst (classify tza r data sA eA sB eB) =
     r\<lparr>protoCountA := protoCountA r \<or> leavesCountA tza sA eA data,
       protoCountB := protoCountB r \<or> leavesCountB tza sA eA sB eB data\<rparr>"
proof (induction data rule: rev_induct)
  case Nil
  then show ?case by (simp add: classify_Nil leavesCountA_def leavesCountB_def)
next
  case (snoc x data)
  obtain r1 st1 where c: "classify tza r data sA eA sB eB = (r1, st1)"
    by (cases "classify tza r data sA eA sB eB")
  have r1: "r1 = r\<lparr>protoCountA := protoCountA r \<or> leavesCountA tza sA eA data,
       protoCountB := protoCountB r \<or> leavesCountB tza sA eA sB eB data\<rparr>"
    using snoc c by simp
  have st1: "\<And>k. \<not> eligible k \<Longrightarrow> map_of st1 k = None"
    using classify_map_of[of tza r data sA eA sB eB] c by simp
  let ?p = "js ''__proto__''"
  show ?case
  proof (cases "district x = Some ?p")
    case True
    have k: "?p \<in> set objectPrototypeKeys" using proto_not_eligible proto_nonempty
      by (simp add: eligible_def)
    have "fst (classify tza r (data @ [x]) sA eA sB eB) =
        (if inWindow tza sA eA x then r1\<lparr>protoCountA := True\<rparr>
         else if inWindow tza sB eB x then r1\<lparr>protoCountB := True\<rparr> else r1)"
      using classifyItem_inherited[OF True proto_nonempty k st1[OF proto_not_eligible]]
      by (simp add: classify_snoc c)
    then show ?thesis using True r1
      by (auto simp: leavesCountA_def leavesCountB_def)
  next
    case False
    have "fst (classify tza r (data @ [x]) sA eA sB eB) = r1"
    proof (cases "district x")
      case None
      then show ?thesis by (simp add: classify_snoc c classifyItem_skip)
    next
      case (Some d)
      show ?thesis
      proof (cases "d = []")
        case True
        then show ?thesis using Some by (simp add: classify_snoc c classifyItem_skip)
      next
        case ne: False
        show ?thesis
        proof (cases "eligible d")
          case True
          then show ?thesis by (simp add: classify_snoc c classifyItem_eligible[OF Some True])
        next
          case inel: False
          then have k: "d \<in> set objectPrototypeKeys" using ne by (simp add: eligible_def)
          have "d \<noteq> ?p" using False Some by simp
          then show ?thesis
            using classifyItem_inherited[OF Some ne k st1[OF inel]]
            by (simp add: classify_snoc c)
        qed
      qed
    qed
    then show ?thesis using False r1
      by (auto simp: leavesCountA_def leavesCountB_def)
  qed
qed

lemma classify_again:
  assumes "classify tza r data sA eA sB eB = (r1, st1)"
  shows "classify tza r1 data sA eA sB eB = (r1, st1)"
proof -
  have "fst (classify tza r1 data sA eA sB eB) = r1"
    using classify_realm[of tza r1 data sA eA sB eB] classify_realm[of tza r data sA eA sB eB] assms
    by auto
  moreover have "snd (classify tza r1 data sA eA sB eB) = st1"
    using classify_stats_realm[of tza r1 data sA eA sB eB r] assms by simp
  ultimately show ?thesis by (simp add: prod_eq_iff)
qed

lemma calculate_unfold:
  "calculateYearlyDistrictStats tza realm data sA eA sB eB =
     (fst (classify tza realm data sA eA sB eB),
      finalPass (fst (classify tza realm data sA eA sB eB))
        (snd (classify tza realm data sA eA sB eB)))"
  by (simp add: calculateYearlyDistrictStats_def split_beta)

lemma calculate_Inr:
  assumes "calculateYearlyDistrictStats tza realm data sA eA sB eB = (realm', Inr stats)"
  shows "stats = sumCounts (snd (classify tza realm data sA eA sB eB))"
  using assms by (simp add: calculate_unfold finalPass_def split: if_splits)

text \<open>
  Claim C1. Whenever the classification pass returns statistics, they are what the
  \<^verbatim>\<open>forEach\<close> loop left with every \<^verbatim>\<open>countC\<close> rewritten by the final loop: when
  the \<^verbatim>\<open>forEach\<close> loop ends every \<^verbatim>\<open>countC\<close> is still 0, since no record touches
  it, and in the result every district has \<^verbatim>\<open>countC = countA + countB\<close>.
\<close>
theorem countC_is_sum_of_counts:
  assumes "calculateYearlyDistrictStats tza realm data sA eA sB eB = (realm', Inr stats)"
  shows "stats = sumCounts (snd (classify tza realm data sA eA sB eB))
       \<and> (\<forall>(d, c)\<in>set (snd (classify tza realm data sA eA sB eB)). countC c = 0)
       \<and> (\<forall>(d, c)\<in>set stats. countC c = countA c + countB c)"
proof -
  have 1: "stats = sumCounts (snd (classify tza realm data sA eA sB eB))"
    using assms by (rule calculate_Inr)
  have 2: "\<forall>(d, c)\<in>set (snd (classify tza realm data sA eA sB eB)). countC c = 0"
  proof (clarify)
    fix d c
    assume "(d, c) \<in> set (snd (classify tza realm data sA eA sB eB))"
    then have "c = tally tza sA eA sB eB data d" using classify_entry by blast
    then show "countC c = 0" by (simp add: tally_def)
  qed
  have 3: "\<forall>(d, c)\<in>set stats. countC c = countA c + countB c"
    unfolding 1 sumCounts_def by auto
  show ?thesis using 1 2 3 by blast
qed

theorem countC_is_sum_of_counts_witness:
  "calculateYearlyDistrictStats utcZone freshRealm
      [station ''North'' ''113/05/20'', station ''East'' ''bad'', station ''North'' ''113/06/20'']
      (new_Date utcZone 2024 0 1) (new_Date utcZone 2024 4 31)
      (new_Date utcZone 2024 5 1) (new_Date utcZone 2024 5 30)
    = (freshRealm, Inr [(js ''North'', \<lparr>countA = 1, countB = 1, countC = 2\<rparr>),
                        (js ''East'', \<lparr>countA = 0, countB = 0, countC = 0\<rparr>)])
   \<and> list_all (\<lambda>(d, c). countC c = countA c + countB c)
        [(js ''North'', \<lparr>countA = 1, countB = 1, countC = 2\<rparr>),
         (js ''East'', \<lparr>countA = 0, countB = 0, countC = 0\<rparr>)]"
proof -
  have e: "calculateYearlyDistrictStats utcZone freshRealm
      [station ''North'' ''113/05/20'', station ''East'' ''bad'', station ''North'' ''113/06/20'']
      (new_Date utcZone 2024 0 1) (new_Date utcZone 2024 4 31)
      (new_Date utcZone 2024 5 1) (new_Date utcZone 2024 5 30)
    = (freshRealm, Inr [(js ''North'', \<lparr>countA = 1, countB = 1, countC = 2\<rparr>),
                        (js ''East'', \<lparr>countA = 0, countB = 0, countC = 0\<rparr>)])"
    by code_simp
  from countC_is_sum_of_counts[OF e]
  have "\<forall>(d, c)\<in>set [(js ''North'', \<lparr>countA = 1, countB = 1, countC = 2\<rparr>),
                        (js ''East'', \<lparr>countA = 0, countB = 0, countC = 0\<rparr>)].
          countC c = countA c + countB c" by blast
  then show ?thesis using e by (simp add: list_all_iff)
qed

text \<open>
  Claim C4. In the returned statistics the \<^verbatim>\<open>countA\<close> of a district is the number of
  its records inside window A, and its \<^verbatim>\<open>countB\<close> the number of its records inside
  window B that are not inside window A: a record inside both windows is counted once,
  under A. The callback itself, on a record of that district inside both windows,
  increments \<^verbatim>\<open>countA\<close> and nothing else.
\<close>
theorem window_A_takes_priority:
  assumes "calculateYearlyDistrictStats tza realm data sA eA sB eB = (realm', Inr stats)"
    and "map_of stats d = Some c"
  shows "countA c = length (filter (\<lambda>i. district i = Some d \<and> inWindow tza sA eA i) data)
       \<and> countB c = length (filter (\<lambda>i. district i = Some d \<and> \<not> inWindow tza sA eA i
                                          \<and> inWindow tza sB eB i) data)
       \<and> (district item = Some d \<and> inWindow tza sA eA item \<and> inWindow tza sB eB item \<longrightarrow>
            classifyItem tza sA eA sB eB (r, st) item =
              (r, AList.update d
                    ((case map_of st d of None \<Rightarrow> zeroCounts | Some c0 \<Rightarrow> c0)
                       \<lparr>countA := countA (case map_of st d of None \<Rightarrow> zeroCounts | Some c0 \<Rightarrow> c0) + 1\<rparr>)
                    st))"
proof -
  let ?st = "snd (classify tza realm data sA eA sB eB)"
  have s: "stats = sumCounts ?st" using assms(1) by (rule calculate_Inr)
  then obtain c' where c': "map_of ?st d = Some c'" "c = c'\<lparr>countC := countA c' + countB c'\<rparr>"
    using assms(2) by (auto simp: map_of_sumCounts)
  then have t: "c' = tally tza sA eA sB eB data d" and el: "eligible d"
    unfolding classify_map_of by (simp_all split: if_splits)
  have 1: "countA c = length (filter (\<lambda>i. district i = Some d \<and> inWindow tza sA eA i) data)"
    using c'(2) t by (simp add: tally_def)
  have 2: "countB c = length (filter (\<lambda>i. district i = Some d \<and> \<not> inWindow tza sA eA i
                                          \<and> inWindow tza sB eB i) data)"
    using c'(2) t by (simp add: tally_def)
  have 3: "district item = Some d \<and> inWindow tza sA eA item \<and> inWindow tza sB eB item \<longrightarrow>
            classifyItem tza sA eA sB eB (r, st) item =
              (r, AList.update d
                    ((case map_of st d of None \<Rightarrow> zeroCounts | Some c0 \<Rightarrow> c0)
                       \<lparr>countA := countA (case map_of st d of None \<Rightarrow> zeroCounts | Some c0 \<Rightarrow> c0) + 1\<rparr>)
                    st)"
    using classifyItem_eligible[of item d tza sA eA sB eB r st] el
    by (simp add: bump_def)
  show ?thesis using 1 2 3 by blast
qed

theorem window_A_takes_priority_witness:
  "calculateYearlyDistrictStats utcZone freshRealm
      [station ''North'' ''113/05/20'', station ''North'' ''113/06/01'']
      (new_Date utcZone 2024 0 1) (new_Date utcZone 2024 4 25)
      (new_Date utcZone 2024 4 15) (new_Date utcZone 2024 5 15)
    = (freshRealm, Inr [(js ''North'', \<lparr>countA = 1, countB = 1, countC = 2\<rparr>)])
   \<and> inWindow utcZone (new_Date utcZone 2024 0 1) (new_Date utcZone 2024 4 25)
        (station ''North'' ''113/05/20'')
   \<and> inWindow utcZone (new_Date utcZone 2024 4 15) (new_Date utcZone 2024 5 15)
        (station ''North'' ''113/05/20'')
   \<and> length (filter (\<lambda>i. district i = Some (js ''North'')
          \<and> \<not> inWindow utcZone (new_Date utcZone 2024 0 1) (new_Date utcZone 2024 4 25) i
          \<and> inWindow utcZone (new_Date utcZone 2024 4 15) (new_Date utcZone 2024 5 15) i)
        [station ''North'' ''113/05/20'', station ''North'' ''113/06/01'']) = 1
   \<and> classifyItem utcZone (new_Date utcZone 2024 0 1) (new_Date utcZone 2024 4 25)
        (new_Date utcZone 2024 4 15) (new_Date utcZone 2024 5 15) (freshRealm, [])
        (station ''North'' ''113/05/20'')
      = (freshRealm, [(js ''North'', \<lparr>countA = 1, countB = 0, countC = 0\<rparr>)])"
proof -
  let ?X = "[(js ''North'', \<lparr>countA = 1, countB = 1, countC = 2\<rparr>)]"
  have e: "calculateYearlyDistrictStats utcZone freshRealm
      [station ''North'' ''113/05/20'', station ''North'' ''113/06/01'']
      (new_Date utcZone 2024 0 1) (new_Date utcZone 2024 4 25)
      (new_Date utcZone 2024 4 15) (new_Date utcZone 2024 5 15)
    = (freshRealm, Inr ?X)"
    by code_simp
  have m: "map_of ?X (js ''North'') = Some \<lparr>countA = 1, countB = 1, countC = 2\<rparr>" by simp
  have d: "district (station ''North'' ''113/05/20'') = Some (js ''North'')"
    by (simp add: station_def)
  have a: "inWindow utcZone (new_Date utcZone 2024 0 1) (new_Date utcZone 2024 4 25)
        (station ''North'' ''113/05/20'')" by code_simp
  have b: "inWindow utcZone (new_Date utcZone 2024 4 15) (new_Date utcZone 2024 5 15)
        (station ''North'' ''113/05/20'')" by code_simp
  note w = window_A_takes_priority[OF e m, of "station ''North'' ''113/05/20''" freshRealm "[]"]
  have n: "length (filter (\<lambda>i. district i = Some (js ''North'')
          \<and> \<not> inWindow utcZone (new_Date utcZone 2024 0 1) (new_Date utcZone 2024 4 25) i
          \<and> inWindow utcZone (new_Date utcZone 2024 4 15) (new_Date utcZone 2024 5 15) i)
        [station ''North'' ''113/05/20'', station ''North'' ''113/06/01'']) = 1"
    using w by simp
  have c: "classifyItem utcZone (new_Date utcZone 2024 0 1) (new_Date utcZone 2024 4 25)
        (new_Date utcZone 2024 4 15) (new_Date utcZone 2024 5 15) (freshRealm, [])
        (station ''North'' ''113/05/20'')
      = (freshRealm, [(js ''North'', \<lparr>countA = 1, countB = 0, countC = 0\<rparr>)])"
    using w d a b by (simp add: zeroCounts_def)
  show ?thesis using e a b n c by blast
qed

text \<open>
  Claim C5. For a record of a district that gets an entry, with a date resolved to the time
  value \<open>t\<close>, and a window A from \<open>a0\<close> to \<open>a1\<close>: the callback increments
  \<^verbatim>\<open>countA\<close> whenever \<open>a0 \<le> t \<le> a1\<close>, both bounds included, so in particular for
  a record dated exactly at the end of a window that is not inverted; a record dated
  after the end of A (the next day, say) is not counted in A and is tested against
  window B, whose bounds are inclusive as well. The pass applies the callback to the
  records in order, each to the state the records before it left.
\<close>
theorem window_bounds_inclusive:
  assumes "district item = Some d" "d \<noteq> []" "d \<notin> set objectPrototypeKeys"
    and "rocToGregorian tza (currentInspection item) = Some (Date (Some t))"
    and "c0 = (case map_of stats d of None \<Rightarrow> zeroCounts | Some c \<Rightarrow> c)"
  shows "(a0 \<le> t \<and> t \<le> a1 \<longrightarrow>
            classifyItem tza (Date (Some a0)) (Date (Some a1)) sB eB (realm, stats) item =
              (realm, AList.update d (c0\<lparr>countA := countA c0 + 1\<rparr>) stats))
       \<and> (a0 \<le> a1 \<and> t = a1 \<longrightarrow>
            classifyItem tza (Date (Some a0)) (Date (Some a1)) sB eB (realm, stats) item =
              (realm, AList.update d (c0\<lparr>countA := countA c0 + 1\<rparr>) stats))
       \<and> (a1 < t \<longrightarrow>
            classifyItem tza (Date (Some a0)) (Date (Some a1)) (Date (Some b0)) (Date (Some b1))
                (realm, stats) item =
              (realm, AList.update d
                 (if b0 \<le> t \<and> t \<le> b1 then c0\<lparr>countB := countB c0 + 1\<rparr> else c0) stats))
       \<and> classify tza realm (data @ [item]) sA eA sB eB =
           classifyItem tza sA eA sB eB (classify tza realm data sA eA sB eB) item"
proof -
  have el: "eligible d" using assms(2,3) by (simp add: eligible_def)
  have inw: "\<And>x y. inWindow tza (Date (Some x)) (Date (Some y)) item \<longleftrightarrow> x \<le> t \<and> t \<le> y"
    using assms(4) by (simp add: inWindow_def date_ge_def date_le_def)
  have 1: "a0 \<le> t \<and> t \<le> a1 \<longrightarrow>
            classifyItem tza (Date (Some a0)) (Date (Some a1)) sB eB (realm, stats) item =
              (realm, AList.update d (c0\<lparr>countA := countA c0 + 1\<rparr>) stats)"
    using classifyItem_eligible[OF assms(1) el, of tza "Date (Some a0)" "Date (Some a1)" sB eB realm stats]
      inw assms(5)
    by (simp add: bump_def)
  have 2: "a1 < t \<longrightarrow>
            classifyItem tza (Date (Some a0)) (Date (Some a1)) (Date (Some b0)) (Date (Some b1))
                (realm, stats) item =
              (realm, AList.update d
                 (if b0 \<le> t \<and> t \<le> b1 then c0\<lparr>countB := countB c0 + 1\<rparr> else c0) stats)"
    using classifyItem_eligible[OF assms(1) el, of tza "Date (Some a0)" "Date (Some a1)"
        "Date (Some b0)" "Date (Some b1)" realm stats] inw assms(5)
    by (simp add: bump_def)
  show ?thesis using 1 2 classify_snoc[of tza realm data item sA eA sB eB] by blast
qed

theorem window_bounds_inclusive_witness:
  "district (station ''North'' ''113/05/20'') = Some (js ''North'') \<and> js ''North'' \<noteq> []
   \<and> js ''North'' \<notin> set objectPrototypeKeys
   \<and> rocToGregorian utcZone (currentInspection (station ''North'' ''113/05/20''))
       = Some (Date (Some 1716163200000))
   \<and> rocToGregorian utcZone (currentInspection (station ''North'' ''113/05/21''))
       = Some (Date (Some 1716249600000))
   \<and> classifyItem utcZone (Date (Some 1704067200000)) (Date (Some 1716163200000))
        (Date (Some 1716163200001)) (Date (Some 1718755200000)) (freshRealm, [])
        (station ''North'' ''113/05/20'')
      = (freshRealm, [(js ''North'', \<lparr>countA = 1, countB = 0, countC = 0\<rparr>)])
   \<and> classifyItem utcZone (Date (Some 1704067200000)) (Date (Some 1716163200000))
        (Date (Some 1716163200001)) (Date (Some 1718755200000)) (freshRealm, [])
        (station ''North'' ''113/05/21'')
      = (freshRealm, [(js ''North'', \<lparr>countA = 0, countB = 1, countC = 0\<rparr>)])"
proof -
  have d1: "district (station ''North'' ''113/05/20'') = Some (js ''North'')"
    and d2: "district (station ''North'' ''113/05/21'') = Some (js ''North'')"
    by (simp_all add: station_def)
  have ne: "js ''North'' \<noteq> []" by (simp add: js_def)
  have k: "js ''North'' \<notin> set objectPrototypeKeys" by code_simp
  have r1: "rocToGregorian utcZone (currentInspection (station ''North'' ''113/05/20''))
       = Some (Date (Some 1716163200000))" by code_simp
  have r2: "rocToGregorian utcZone (currentInspection (station ''North'' ''113/05/21''))
       = Some (Date (Some 1716249600000))" by code_simp
  have c0: "zeroCounts = (case map_of ([] :: DistrictStats) (js ''North'') of
                             None \<Rightarrow> zeroCounts | Some c \<Rightarrow> c)" by simp
  have w1: "classifyItem utcZone (Date (Some 1704067200000)) (Date (Some 1716163200000))
        (Date (Some 1716163200001)) (Date (Some 1718755200000)) (freshRealm, [])
        (station ''North'' ''113/05/20'')
      = (freshRealm, [(js ''North'', \<lparr>countA = 1, countB = 0, countC = 0\<rparr>)])"
    using window_bounds_inclusive[OF d1 ne k r1 c0, of 1704067200000 1716163200000
        "Date (Some 1716163200001)" "Date (Some 1718755200000)" freshRealm 0 0]
    by (simp add: zeroCounts_def)
  have w2: "classifyItem utcZone (Date (Some 1704067200000)) (Date (Some 1716163200000))
        (Date (Some 1716163200001)) (Date (Some 1718755200000)) (freshRealm, [])
        (station ''North'' ''113/05/21'')
      = (freshRealm, [(js ''North'', \<lparr>countA = 0, countB = 1, countC = 0\<rparr>)])"
    using window_bounds_inclusive[OF d2 ne k r2 c0, of 1704067200000 1716163200000
        "Date (Some 1716163200001)" "Date (Some 1718755200000)" freshRealm
        1716163200001 1718755200000]
    by (simp add: zeroCounts_def)
  show ?thesis using d1 ne k r1 r2 w1 w2 by blast
qed

text \<open>
  Claim C9. Invoking the pass a second time with the same records and windows, in the
  environment the first invocation left, gives the same result and leaves that
  environment as it is. The records and the windows are values that the pass only reads:
  the source assigns to no field of a record and calls no mutator of a Date, so the
  model has no state for them to change.
\<close>
theorem classification_idempotent:
  assumes "calculateYearlyDistrictStats tza realm data sA eA sB eB = (realm1, result1)"
  shows "calculateYearlyDistrictStats tza realm1 data sA eA sB eB = (realm1, result1)"
proof -
  obtain st where c: "classify tza realm data sA eA sB eB = (realm1, st)"
    and r: "result1 = finalPass realm1 st"
    using assms by (auto simp: calculateYearlyDistrictStats_def split: prod.splits)
  have "classify tza realm1 data sA eA sB eB = (realm1, st)"
    using c by (rule classify_again)
  then show ?thesis using r by (simp add: calculateYearlyDistrictStats_def)
qed

theorem classification_idempotent_witness:
  "calculateYearlyDistrictStats utcZone \<lparr>strictMode = False, protoCountA = False, protoCountB = False\<rparr>
      [station ''North'' ''113/05/20'', station ''__proto__'' ''113/05/20'']
      (new_Date utcZone 2024 0 1) (new_Date utcZone 2024 4 31)
      (new_Date utcZone 2024 5 1) (new_Date utcZone 2024 5 30)
    = (\<lparr>strictMode = False, protoCountA = True, protoCountB = False\<rparr>,
       Inr [(js ''North'', \<lparr>countA = 1, countB = 0, countC = 1\<rparr>)])
   \<and> calculateYearlyDistrictStats utcZone \<lparr>strictMode = False, protoCountA = True, protoCountB = False\<rparr>
      [station ''North'' ''113/05/20'', station ''__proto__'' ''113/05/20'']
      (new_Date utcZone 2024 0 1) (new_Date utcZone 2024 4 31)
      (new_Date utcZone 2024 5 1) (new_Date utcZone 2024 5 30)
    = (\<lparr>strictMode = False, protoCountA = True, protoCountB = False\<rparr>,
       Inr [(js ''North'', \<lparr>countA = 1, countB = 0, countC = 1\<rparr>)])"
proof -
  have e: "calculateYearlyDistrictStats utcZone \<lparr>strictMode = False, protoCountA = False, protoCountB = False\<rparr>
      [station ''North'' ''113/05/20'', station ''__proto__'' ''113/05/20'']
      (new_Date utcZone 2024 0 1) (new_Date utcZone 2024 4 31)
      (new_Date utcZone 2024 5 1) (new_Date utcZone 2024 5 30)
    = (\<lparr>strictMode = False, protoCountA = True, protoCountB = False\<rparr>,
       Inr [(js ''North'', \<lparr>countA = 1, countB = 0, countC = 1\<rparr>)])"
    by code_simp
  from classification_idempotent[OF e] e show ?thesis by blast
qed

text \<open>
  Claim C6 fails on the code. A record whose district is \<^verbatim>\<open>"constructor"\<close>, a truthy
  string, leaves no key in the result: \<^verbatim>\<open>stats["constructor"]\<close> finds the function
  inherited from \<^verbatim>\<open>Object.prototype\<close>, so the guard \<^verbatim>\<open>!stats[district]\<close> is false
  and no triple is created. The keys of the result are the truthy districts that do not
  name an inherited property (lemma \<open>calculate_keys\<close> below), and such a district
  has its entry, all zeros, also when none of its records is counted (lemma
  \<open>calculate_zero_entry\<close>).
\<close>
theorem inherited_district_missing:
  "calculateYearlyDistrictStats utcZone freshRealm
      [station ''constructor'' ''113/05/20'', station ''North'' ''113/05/20'']
      (new_Date utcZone 2024 0 1) (new_Date utcZone 2024 4 31)
      (new_Date utcZone 2024 5 1) (new_Date utcZone 2024 5 30)
    = (freshRealm, Inr [(js ''North'', \<lparr>countA = 1, countB = 0, countC = 1\<rparr>)])"
  by code_simp

subsection \<open>When the pass returns, and the keys of its result\<close>

lemma calculate_returns:
  assumes "\<not> strictMode realm \<or>
           (\<not> protoCountA realm \<and> \<not> protoCountB realm
            \<and> (\<forall>i\<in>set data. district i \<noteq> Some (js ''__proto__'')))"
  shows "\<exists>stats. snd (calculateYearlyDistrictStats tza realm data sA eA sB eB) = Inr stats"
proof -
  let ?r = "fst (classify tza realm data sA eA sB eB)"
  have s: "strictMode ?r = strictMode realm"
    and a: "protoCountA ?r = (protoCountA realm \<or> leavesCountA tza sA eA data)"
    and b: "protoCountB ?r = (protoCountB realm \<or> leavesCountB tza sA eA sB eB data)"
    by (simp_all add: classify_realm)
  have "\<not> strictMode ?r \<or> (\<not> protoCountA ?r \<and> \<not> protoCountB ?r)"
    using assms s a b by (auto simp: leavesCountA_def leavesCountB_def)
  then show ?thesis
    by (auto simp: calculate_unfold finalPass_def inheritedEnumerable_def)
qed

lemma calculate_keys:
  assumes "calculateYearlyDistrictStats tza realm data sA eA sB eB = (realm', Inr stats)"
  shows "fst ` set stats =
           {d. d \<noteq> [] \<and> d \<notin> set objectPrototypeKeys \<and> (\<exists>i\<in>set data. district i = Some d)}"
proof -
  have "stats = sumCounts (snd (classify tza realm data sA eA sB eB))"
    using assms by (rule calculate_Inr)
  then have "fst ` set stats = fst ` set (snd (classify tza realm data sA eA sB eB))"
    using keys_sumCounts[of "snd (classify tza realm data sA eA sB eB)"]
    by (metis list.set_map)
  then show ?thesis by (simp add: classify_keys eligible_def)
qed

lemma calculate_zero_entry:
  assumes "calculateYearlyDistrictStats tza realm data sA eA sB eB = (realm', Inr stats)"
    and "d \<noteq> []" "d \<notin> set objectPrototypeKeys" "\<exists>i\<in>set data. district i = Some d"
    and "\<forall>i\<in>set data. district i = Some d \<longrightarrow>
           \<not> inWindow tza sA eA i \<and> \<not> inWindow tza sB eB i"
  shows "map_of stats d = Some zeroCounts"
proof -
  have s: "stats = sumCounts (snd (classify tza realm data sA eA sB eB))"
    using assms(1) by (rule calculate_Inr)
  have e: "eligible d" using assms(2,3) by (simp add: eligible_def)
  have "tally tza sA eA sB eB data d = zeroCounts"
    using assms(5) by (auto simp: tally_def zeroCounts_def filter_empty_conv)
  then show ?thesis
    using e assms(4) by (simp add: s map_of_sumCounts classify_map_of zeroCounts_def)
qed

text \<open>
  A record of the district \<^verbatim>\<open>__proto__\<close> inside a window leaves \<^verbatim>\<open>countA\<close> on
  the prototype object; in strict mode the final loop then throws, in this invocation and
  in every later one whose records have no district named \<^verbatim>\<open>countA\<close>.
\<close>

lemma proto_district_throws:
  "calculateYearlyDistrictStats utcZone freshRealm
      [station ''North'' ''113/05/20'', station ''__proto__'' ''113/05/20'']
      (new_Date utcZone 2024 0 1) (new_Date utcZone 2024 4 31)
      (new_Date utcZone 2024 5 1) (new_Date utcZone 2024 5 30)
    = (freshRealm\<lparr>protoCountA := True\<rparr>, Inl TypeError)
   \<and> calculateYearlyDistrictStats utcZone (freshRealm\<lparr>protoCountA := True\<rparr>)
      [station ''North'' ''113/05/20'']
      (new_Date utcZone 2024 0 1) (new_Date utcZone 2024 4 31)
      (new_Date utcZone 2024 5 1) (new_Date utcZone 2024 5 30)
    = (freshRealm\<lparr>protoCountA := True\<rparr>, Inl TypeError)"
  by code_simp

section \<open>Properties of the completion pass\<close>

lemma gtZero_truthy: "gtZero t \<Longrightarrow> truthy t"
  by (cases t) auto

lemma specDistrictEntry_unfold:
  "specDistrictEntry stats targets d =
     (case targets d of None \<Rightarrow> []
      | Some target \<Rightarrow>
          if gtZero target
          then (case map_of stats d of None \<Rightarrow> []
                | Some c \<Rightarrow> [(d, percentage (numberOfNat (countC c)) target)])
          else [])"
  by (simp add: specDistrictEntry_def split: option.splits)

lemma specQualifying_Cons:
  "specQualifying stats targets (d # ds) =
     (case targets d of None \<Rightarrow> []
      | Some target \<Rightarrow>
          if gtZero target
          then (case map_of stats d of None \<Rightarrow> []
                | Some c \<Rightarrow> [(numberOfNat (countC c), target)])
          else []) @ specQualifying stats targets ds"
  by (simp add: specQualifying_def split: option.splits)

lemma specQualifying_Nil: "specQualifying stats targets [] = []"
  by (simp add: specQualifying_def)

lemma completionLoop_eq:
  assumes "set ds \<subseteq> fst ` set stats"
  shows "completionLoop stats targets ds (cd, tc, tt) =
           Inr (cd @ concat (map (specDistrictEntry stats targets) ds),
                foldl js_add tc (map fst (specQualifying stats targets ds)),
                foldl js_add tt (map snd (specQualifying stats targets ds)))"
  using assms
proof (induction ds arbitrary: cd tc tt)
  case Nil
  then show ?case by (simp add: specQualifying_Nil)
next
  case (Cons d ds)
  then have "d \<in> fst ` set stats" by simp
  then obtain c where c: "map_of stats d = Some c"
    by (metis map_of_eq_None_iff not_Some_eq)
  have sub: "set ds \<subseteq> fst ` set stats" using Cons.prems by simp
  show ?case
  proof (cases "targets d")
    case None
    then show ?thesis using Cons.IH[OF sub]
      by (simp add: specDistrictEntry_unfold specQualifying_Cons)
  next
    case (Some target)
    show ?thesis
    proof (cases "gtZero target")
      case True
      then show ?thesis using Some c Cons.IH[OF sub] gtZero_truthy[OF True]
        by (simp add: specDistrictEntry_unfold specQualifying_Cons)
    next
      case False
      then show ?thesis using Some Cons.IH[OF sub]
        by (simp add: specDistrictEntry_unfold specQualifying_Cons)
    qed
  qed
qed

lemma set_sortedDistricts: "set (sortedDistricts stats) = fst ` set stats"
  by (simp add: sortedDistricts_def)

lemma renderCompletionVisuals_eq:
  "renderCompletionVisuals stats targets =
     Inr (specDistrictEntries stats targets @
          (if gtZero (specSumOfTargets stats targets)
           then [(aggregateLabel,
                  percentage (specSumOfCounts stats targets) (specSumOfTargets stats targets))]
           else []))"
proof -
  have "set (sortedDistricts stats) \<subseteq> fst ` set stats" by (simp add: set_sortedDistricts)
  from completionLoop_eq[OF this, of targets "[]" "Fin 0" "Fin 0"]
  show ?thesis
    by (simp add: renderCompletionVisuals_def specDistrictEntries_def specSumOfCounts_def
        specSumOfTargets_def)
qed

lemma fst_districtEntry:
  "map fst (specDistrictEntry stats targets d) =
     (if map_of stats d \<noteq> None \<and> (case targets d of None \<Rightarrow> False | Some t \<Rightarrow> gtZero t)
      then [d] else [])"
  by (simp add: specDistrictEntry_def split: option.splits)

lemma fst_concat_districtEntry:
  "set ds \<subseteq> fst ` set stats \<Longrightarrow>
   map fst (concat (map (specDistrictEntry stats targets) ds)) =
     filter (\<lambda>d. case targets d of None \<Rightarrow> False | Some t \<Rightarrow> gtZero t) ds"
proof (induction ds)
  case Nil
  then show ?case by simp
next
  case (Cons d ds)
  then have "d \<in> fst ` set stats" by simp
  then have "map_of stats d \<noteq> None" by (simp add: map_of_eq_None_iff)
  then show ?case using Cons by (simp add: fst_districtEntry)
qed

lemma fst_districtEntries:
  "map fst (specDistrictEntries stats targets) =
     filter (\<lambda>d. case targets d of None \<Rightarrow> False | Some t \<Rightarrow> gtZero t) (sortedDistricts stats)"
  unfolding specDistrictEntries_def
  by (rule fst_concat_districtEntry) (simp add: set_sortedDistricts)

lemma in_districtEntries:
  "(d, p) \<in> set (specDistrictEntries stats targets) \<longleftrightarrow>
     (\<exists>c t. map_of stats d = Some c \<and> targets d = Some t \<and> gtZero t
            \<and> p = percentage (numberOfNat (countC c)) t)"
proof
  assume "(d, p) \<in> set (specDistrictEntries stats targets)"
  then obtain k where "(d, p) \<in> set (specDistrictEntry stats targets k)"
    by (auto simp: specDistrictEntries_def)
  then show "\<exists>c t. map_of stats d = Some c \<and> targets d = Some t \<and> gtZero t
            \<and> p = percentage (numberOfNat (countC c)) t"
    by (cases "map_of stats k"; cases "targets k")
      (auto simp: specDistrictEntry_def split: if_splits)
next
  assume "\<exists>c t. map_of stats d = Some c \<and> targets d = Some t \<and> gtZero t
            \<and> p = percentage (numberOfNat (countC c)) t"
  then obtain c t where h: "map_of stats d = Some c" "targets d = Some t" "gtZero t"
    "p = percentage (numberOfNat (countC c)) t" by blast
  then have "d \<in> set (sortedDistricts stats)"
    by (metis map_of_eq_None_iff option.distinct(1) set_sortedDistricts)
  moreover have "(d, p) \<in> set (specDistrictEntry stats targets d)"
    using h by (simp add: specDistrictEntry_def)
  ultimately show "(d, p) \<in> set (specDistrictEntries stats targets)"
    by (auto simp: specDistrictEntries_def)
qed

lemma sorted_districtEntries: "sorted (map fst (specDistrictEntries stats targets))"
proof -
  have "sorted (sortedDistricts stats)" by (simp add: sortedDistricts_def)
  then show ?thesis unfolding fst_districtEntries by (rule sorted_wrt_filter)
qed

lemma none_qualifying:
  assumes "\<forall>k\<in>set ds. \<not> (\<exists>t. targets k = Some t \<and> gtZero t)"
  shows "specQualifying stats targets ds = []
       \<and> concat (map (specDistrictEntry stats targets) ds) = []"
  using assms
proof (induction ds)
  case Nil
  then show ?case by (simp add: specQualifying_Nil)
next
  case (Cons d ds)
  then have "\<not> (\<exists>t. targets d = Some t \<and> gtZero t)" by simp
  then have "specDistrictEntry stats targets d = []"
    by (cases "targets d") (auto simp: specDistrictEntry_unfold)
  moreover have "specQualifying stats targets (d # ds) = specQualifying stats targets ds"
    using \<open>\<not> (\<exists>t. targets d = Some t \<and> gtZero t)\<close>
    by (cases "targets d") (auto simp: specQualifying_Cons)
  ultimately show ?case using Cons by simp
qed

lemma render_none_qualifying:
  assumes "\<forall>k\<in>fst ` set stats. \<not> (\<exists>t. targets k = Some t \<and> gtZero t)"
  shows "renderCompletionVisuals stats targets = Inr []"
proof -
  have "\<forall>k\<in>set (sortedDistricts stats). \<not> (\<exists>t. targets k = Some t \<and> gtZero t)"
    using assms by (simp add: set_sortedDistricts)
  from none_qualifying[OF this, of stats]
  show ?thesis
    by (simp add: renderCompletionVisuals_eq specDistrictEntries_def specSumOfTargets_def)
qed

lemma in_render_output:
  assumes "renderCompletionVisuals stats targets = Inr out" "(d, p) \<in> set out"
  shows "(\<exists>c t. map_of stats d = Some c \<and> targets d = Some t \<and> gtZero t
              \<and> p = percentage (numberOfNat (countC c)) t)
         \<or> (d = aggregateLabel \<and> gtZero (specSumOfTargets stats targets)
              \<and> p = percentage (specSumOfCounts stats targets) (specSumOfTargets stats targets))"
proof -
  have "out = specDistrictEntries stats targets @
          (if gtZero (specSumOfTargets stats targets)
           then [(aggregateLabel,
                  percentage (specSumOfCounts stats targets) (specSumOfTargets stats targets))]
           else [])"
    using assms(1) by (simp add: renderCompletionVisuals_eq)
  then have "(d, p) \<in> set (specDistrictEntries stats targets)
      \<or> (gtZero (specSumOfTargets stats targets) \<and>
          (d, p) = (aggregateLabel,
                  percentage (specSumOfCounts stats targets) (specSumOfTargets stats targets)))"
    using assms(2) by (auto split: if_splits)
  then show ?thesis using in_districtEntries[of d p stats targets] by auto
qed

text \<open>
  Claim C7. The completion pass always returns its array (the lookup
  \<^verbatim>\<open>stats[district]\<close> cannot fail, since the loop runs over the object's own keys),
  and the array is exactly this: the per-district entries, one for each district, in
  sorted order, whose target is present and strictly positive, with the percentage
  \<^verbatim>\<open>(countC / target) * 100\<close> computed in binary64 arithmetic (the quotient is rounded,
  not truncated), followed by the aggregate entry when the sum of those targets is
  greater than zero, and nothing else. So every element of the output is the entry of a
  district whose target is greater than zero, which is the divisor of its percentage, or
  the aggregate entry, whose divisor is greater than zero as well; a district whose
  target is absent, zero, negative or NaN has no entry in the output (the aggregate entry
  apart, should the district bear its label); and when no district has a target greater
  than zero the output is empty. With \<^verbatim>\<open>countC\<close> 40 and target 50 the output is the
  entry of North with percentage 80 and the aggregate entry with percentage 80; with
  target 0, with target -5 and with no target the output is empty.
\<close>

theorem completion_per_district:
  "renderCompletionVisuals stats targets =
     Inr (specDistrictEntries stats targets @
          (if gtZero (specSumOfTargets stats targets)
           then [(aggregateLabel,
                  percentage (specSumOfCounts stats targets) (specSumOfTargets stats targets))]
           else []))
   \<and> map fst (specDistrictEntries stats targets) =
       filter (\<lambda>d. case targets d of None \<Rightarrow> False | Some t \<Rightarrow> gtZero t)
         (sortedDistricts stats)
   \<and> ((d, p) \<in> set (specDistrictEntries stats targets) \<longleftrightarrow>
        (\<exists>c t. map_of stats d = Some c \<and> targets d = Some t \<and> gtZero t
               \<and> p = percentage (numberOfNat (countC c)) t))
   \<and> (0 < x \<longrightarrow> percentage (numberOfNat n) (Fin x) =
                    js_mul (roundDouble (of_nat n / x)) (Fin 100))
   \<and> (renderCompletionVisuals stats targets = Inr out \<and> (d, p) \<in> set out \<longrightarrow>
        (\<exists>c t. map_of stats d = Some c \<and> targets d = Some t \<and> gtZero t
               \<and> p = percentage (numberOfNat (countC c)) t)
        \<or> (d = aggregateLabel \<and> gtZero (specSumOfTargets stats targets)
            \<and> p = percentage (specSumOfCounts stats targets) (specSumOfTargets stats targets)))
   \<and> (renderCompletionVisuals stats targets = Inr out \<and> d \<noteq> aggregateLabel
        \<and> (targets d = None \<or> targets d = Some NaN \<or> targets d = Some NegInf
             \<or> (\<exists>y. y \<le> 0 \<and> targets d = Some (Fin y)))
       \<longrightarrow> d \<notin> fst ` set out)
   \<and> ((\<forall>k\<in>fst ` set stats. \<not> (\<exists>t. targets k = Some t \<and> gtZero t))
       \<longrightarrow> renderCompletionVisuals stats targets = Inr [])
   \<and> renderCompletionVisuals [(js ''North'', \<lparr>countA = 30, countB = 10, countC = 40\<rparr>)]
        [js ''North'' \<mapsto> Fin 50]
      = Inr [(js ''North'', Fin 80), (aggregateLabel, Fin 80)]
   \<and> renderCompletionVisuals [(js ''North'', \<lparr>countA = 30, countB = 10, countC = 40\<rparr>)]
        [js ''North'' \<mapsto> Fin 0]
      = Inr []
   \<and> renderCompletionVisuals [(js ''North'', \<lparr>countA = 30, countB = 10, countC = 40\<rparr>)]
        [js ''North'' \<mapsto> Fin (- 5)]
      = Inr []
   \<and> renderCompletionVisuals [(js ''North'', \<lparr>countA = 30, countB = 10, countC = 40\<rparr>)]
        Map.empty
      = Inr []"
proof -
  have 4: "0 < x \<longrightarrow> percentage (numberOfNat n) (Fin x) =
                    js_mul (roundDouble (of_nat n / x)) (Fin 100)"
    by (simp add: percentage_def numberOfNat_def)
  have 5: "renderCompletionVisuals stats targets = Inr out \<and> (d, p) \<in> set out \<longrightarrow>
        (\<exists>c t. map_of stats d = Some c \<and> targets d = Some t \<and> gtZero t
               \<and> p = percentage (numberOfNat (countC c)) t)
        \<or> (d = aggregateLabel \<and> gtZero (specSumOfTargets stats targets)
            \<and> p = percentage (specSumOfCounts stats targets) (specSumOfTargets stats targets))"
    using in_render_output[of stats targets out d p] by blast
  have 6: "renderCompletionVisuals stats targets = Inr out \<and> d \<noteq> aggregateLabel
        \<and> (targets d = None \<or> targets d = Some NaN \<or> targets d = Some NegInf
             \<or> (\<exists>y. y \<le> 0 \<and> targets d = Some (Fin y)))
       \<longrightarrow> d \<notin> fst ` set out"
  proof
    assume h: "renderCompletionVisuals stats targets = Inr out \<and> d \<noteq> aggregateLabel
        \<and> (targets d = None \<or> targets d = Some NaN \<or> targets d = Some NegInf
             \<or> (\<exists>y. y \<le> 0 \<and> targets d = Some (Fin y)))"
    then have n: "\<not> (\<exists>t. targets d = Some t \<and> gtZero t)" by auto
    show "d \<notin> fst ` set out"
    proof
      assume "d \<in> fst ` set out"
      then obtain q where "(d, q) \<in> set out" by auto
      then show False using in_render_output[of stats targets out d q] h n by blast
    qed
  qed
  have 7: "(\<forall>k\<in>fst ` set stats. \<not> (\<exists>t. targets k = Some t \<and> gtZero t))
       \<longrightarrow> renderCompletionVisuals stats targets = Inr []"
    using render_none_qualifying[of stats targets] by blast
  have 8: "renderCompletionVisuals [(js ''North'', \<lparr>countA = 30, countB = 10, countC = 40\<rparr>)]
        [js ''North'' \<mapsto> Fin 50]
      = Inr [(js ''North'', Fin 80), (aggregateLabel, Fin 80)]"
    by code_simp
  have 9: "renderCompletionVisuals [(js ''North'', \<lparr>countA = 30, countB = 10, countC = 40\<rparr>)]
        [js ''North'' \<mapsto> Fin 0]
      = Inr []"
    by code_simp
  have 10: "renderCompletionVisuals [(js ''North'', \<lparr>countA = 30, countB = 10, countC = 40\<rparr>)]
        [js ''North'' \<mapsto> Fin (- 5)]
      = Inr []"
    by code_simp
  have 11: "renderCompletionVisuals [(js ''North'', \<lparr>countA = 30, countB = 10, countC = 40\<rparr>)]
        Map.empty
      = Inr []"
    by code_simp
  show ?thesis
    using renderCompletionVisuals_eq[of stats targets] fst_districtEntries[of stats targets]
      in_districtEntries[of d p stats targets] 4 5 6 7 8 9 10 11
    by blast
qed

theorem completion_per_district_witness:
  "(0::rat) < 50
   \<and> percentage (numberOfNat 40) (Fin 50) = Fin 80
   \<and> renderCompletionVisuals
        [(js ''North'', \<lparr>countA = 30, countB = 10, countC = 40\<rparr>),
         (js ''East'', \<lparr>countA = 3, countB = 1, countC = 4\<rparr>)]
        [js ''North'' \<mapsto> Fin 50, js ''East'' \<mapsto> Fin (- 5)]
      = Inr [(js ''North'', Fin 80), (aggregateLabel, Fin 80)]
   \<and> (js ''North'', Fin 80) \<in> set [(js ''North'', Fin 80), (aggregateLabel, Fin 80)]
   \<and> js ''East'' \<noteq> aggregateLabel \<and> (- 5 :: rat) \<le> 0
   \<and> [js ''North'' \<mapsto> Fin 50, js ''East'' \<mapsto> Fin (- 5)] (js ''East'') = Some (Fin (- 5))
   \<and> js ''East'' \<notin> fst ` set [(js ''North'', Fin 80), (aggregateLabel, Fin 80)]
   \<and> (\<exists>c t. map_of [(js ''North'', \<lparr>countA = 30, countB = 10, countC = 40\<rparr>),
                      (js ''East'', \<lparr>countA = 3, countB = 1, countC = 4\<rparr>)] (js ''North'') = Some c
          \<and> [js ''North'' \<mapsto> Fin 50, js ''East'' \<mapsto> Fin (- 5)] (js ''North'') = Some t
          \<and> gtZero t \<and> Fin 80 = percentage (numberOfNat (countC c)) t)
   \<and> list_all (\<lambda>k. \<not> (\<exists>t. [js ''North'' \<mapsto> Fin 0] k = Some t \<and> gtZero t))
        (map fst [(js ''North'', \<lparr>countA = 30, countB = 10, countC = 40\<rparr>)])
   \<and> renderCompletionVisuals [(js ''North'', \<lparr>countA = 30, countB = 10, countC = 40\<rparr>)]
        [js ''North'' \<mapsto> Fin 0] = Inr []"
proof -
  let ?st = "[(js ''North'', \<lparr>countA = 30, countB = 10, countC = 40\<rparr>),
              (js ''East'', \<lparr>countA = 3, countB = 1, countC = 4\<rparr>)]"
  let ?tg = "[js ''North'' \<mapsto> Fin 50, js ''East'' \<mapsto> Fin (- 5)]"
  let ?out = "[(js ''North'', Fin 80), (aggregateLabel, Fin 80)]"
  let ?single = "[(js ''North'', \<lparr>countA = 30, countB = 10, countC = 40\<rparr>)]"
  let ?zero = "[js ''North'' \<mapsto> Fin 0]"
  have v: "js_mul (roundDouble (of_nat 40 / 50)) (Fin 100) = Fin 80" by code_simp
  have p: "(0::rat) < 50" by simp
  have "percentage (numberOfNat 40) (Fin 50) = js_mul (roundDouble (of_nat 40 / 50)) (Fin 100)"
    using completion_per_district[where stats = ?single and targets = ?zero and d = "[]"
        and p = NaN and out = "[]" and x = 50 and n = 40] p
    by blast
  then have a: "percentage (numberOfNat 40) (Fin 50) = Fin 80"
    by (simp only: v)
  have r: "renderCompletionVisuals ?st ?tg = Inr ?out" by code_simp
  have m: "(js ''North'', Fin 80) \<in> set ?out" by simp
  have ne: "js ''East'' \<noteq> aggregateLabel" by code_simp
  have nn: "js ''North'' \<noteq> aggregateLabel" by code_simp
  have te: "?tg (js ''East'') = Some (Fin (- 5))" by code_simp
  have le: "(- 5 :: rat) \<le> 0" by simp
  have ex: "\<exists>y. y \<le> 0 \<and> ?tg (js ''East'') = Some (Fin y)"
    using te le by blast
  have "renderCompletionVisuals ?st ?tg = Inr ?out \<and> js ''East'' \<noteq> aggregateLabel
        \<and> (?tg (js ''East'') = None \<or> ?tg (js ''East'') = Some NaN
             \<or> ?tg (js ''East'') = Some NegInf
             \<or> (\<exists>y. y \<le> 0 \<and> ?tg (js ''East'') = Some (Fin y)))
       \<longrightarrow> js ''East'' \<notin> fst ` set ?out"
    using completion_per_district[where stats = ?st and targets = ?tg and out = ?out
        and d = "js ''East''" and p = NaN and x = 1 and n = 0]
    by (elim conjE)
  then have e: "js ''East'' \<notin> fst ` set ?out"
    using r ne ex by blast
  have "renderCompletionVisuals ?st ?tg = Inr ?out \<and> (js ''North'', Fin 80) \<in> set ?out
       \<longrightarrow>
        (\<exists>c t. map_of ?st (js ''North'') = Some c \<and> ?tg (js ''North'') = Some t
               \<and> gtZero t \<and> Fin 80 = percentage (numberOfNat (countC c)) t)
        \<or> (js ''North'' = aggregateLabel \<and> gtZero (specSumOfTargets ?st ?tg)
            \<and> Fin 80 = percentage (specSumOfCounts ?st ?tg) (specSumOfTargets ?st ?tg))"
    using completion_per_district[where stats = ?st and targets = ?tg and out = ?out
        and d = "js ''North''" and p = "Fin 80" and x = 1 and n = 0]
    by (elim conjE)
  then have c: "\<exists>c t. map_of ?st (js ''North'') = Some c \<and> ?tg (js ''North'') = Some t
          \<and> gtZero t \<and> Fin 80 = percentage (numberOfNat (countC c)) t"
    using r m nn by blast
  have l: "list_all (\<lambda>k. \<not> (\<exists>t. ?zero k = Some t \<and> gtZero t)) (map fst ?single)" by simp
  then have "\<forall>k\<in>fst ` set ?single. \<not> (\<exists>t. ?zero k = Some t \<and> gtZero t)" by simp
  then have z: "renderCompletionVisuals ?single ?zero = Inr []"
    using completion_per_district[where stats = ?single and targets = ?zero and out = "[]"
        and d = "[]" and p = NaN and x = 1 and n = 0]
    by blast
  show ?thesis using p a r m ne le te e c l z by blast
qed

text \<open>
  Claim C8, as stated, is false where it says that the label of the aggregate entry differs
  from every district name: a district may itself be named by the three characters of
  that label, and then the output holds two entries with that label.
\<close>
theorem aggregate_label_counterexample:
  "renderCompletionVisuals [(aggregateLabel, \<lparr>countA = 5, countB = 0, countC = 5\<rparr>)]
     [aggregateLabel \<mapsto> Fin 10]
   = Inr [(aggregateLabel, Fin 50), (aggregateLabel, Fin 50)]"
  by code_simp

text \<open>
  Claim C8, amended. The output is the per-district entries followed by the aggregate
  entry, which is therefore last; the aggregate entry is there exactly when the sum of
  the targets of the qualifying districts is greater than zero, and its percentage is
  the sum of their \<^verbatim>\<open>countC\<close> divided by that sum, times 100 (both sums taken in
  sorted order, in binary64 arithmetic). The per-district entries are sorted by district
  name, in the order of code units that \<^verbatim>\<open>Object.keys(stats).sort()\<close> gives. The label
  of the aggregate entry is a fixed string; it differs from the label of every
  per-district entry when no district has that name.
\<close>
theorem completion_aggregate:
  "renderCompletionVisuals stats targets =
     Inr (specDistrictEntries stats targets @
          (if gtZero (specSumOfTargets stats targets)
           then [(aggregateLabel,
                  percentage (specSumOfCounts stats targets) (specSumOfTargets stats targets))]
           else []))
   \<and> sorted (map fst (specDistrictEntries stats targets))
   \<and> (aggregateLabel \<notin> fst ` set stats \<longrightarrow>
        aggregateLabel \<notin> fst ` set (specDistrictEntries stats targets))"
proof -
  have "aggregateLabel \<notin> fst ` set stats \<longrightarrow>
        aggregateLabel \<notin> fst ` set (specDistrictEntries stats targets)"
  proof
    assume "aggregateLabel \<notin> fst ` set stats"
    then have "map_of stats aggregateLabel = None" by (simp add: map_of_eq_None_iff)
    then show "aggregateLabel \<notin> fst ` set (specDistrictEntries stats targets)"
      using in_districtEntries[of aggregateLabel _ stats targets] by force
  qed
  then show ?thesis
    using renderCompletionVisuals_eq[of stats targets] sorted_districtEntries[of stats targets]
    by blast
qed

theorem completion_aggregate_witness:
  "aggregateLabel \<notin> fst ` set [(js ''North'', \<lparr>countA = 30, countB = 10, countC = 40\<rparr>),
                                  (js ''East'', \<lparr>countA = 3, countB = 1, countC = 4\<rparr>)]
   \<and> aggregateLabel \<notin> fst ` set (specDistrictEntries
        [(js ''North'', \<lparr>countA = 30, countB = 10, countC = 40\<rparr>),
         (js ''East'', \<lparr>countA = 3, countB = 1, countC = 4\<rparr>)]
        [js ''North'' \<mapsto> Fin 50, js ''East'' \<mapsto> Fin 5])
   \<and> renderCompletionVisuals
        [(js ''North'', \<lparr>countA = 30, countB = 10, countC = 40\<rparr>),
         (js ''East'', \<lparr>countA = 3, countB = 1, countC = 4\<rparr>)]
        [js ''North'' \<mapsto> Fin 50, js ''East'' \<mapsto> Fin 5]
      = Inr [(js ''East'', Fin 80), (js ''North'', Fin 80), (aggregateLabel, Fin 80)]"
proof -
  let ?st = "[(js ''North'', \<lparr>countA = 30, countB = 10, countC = 40\<rparr>),
              (js ''East'', \<lparr>countA = 3, countB = 1, countC = 4\<rparr>)]"
  let ?tg = "[js ''North'' \<mapsto> Fin 50, js ''East'' \<mapsto> Fin 5]"
  have a: "aggregateLabel \<notin> fst ` set ?st" by code_simp
  have b: "aggregateLabel \<notin> fst ` set (specDistrictEntries ?st ?tg)"
    using completion_aggregate[of ?st ?tg] a by blast
  have e: "specDistrictEntries ?st ?tg = [(js ''East'', Fin 80), (js ''North'', Fin 80)]"
    by code_simp
  have t: "specSumOfTargets ?st ?tg = Fin 55" by code_simp
  have c: "specSumOfCounts ?st ?tg = Fin 44" by code_simp
  have p: "percentage (Fin 44) (Fin 55) = Fin 80" by code_simp
  have r: "renderCompletionVisuals ?st ?tg
      = Inr [(js ''East'', Fin 80), (js ''North'', Fin 80), (aggregateLabel, Fin 80)]"
    using completion_aggregate[of ?st ?tg] e t c p by simp
  show ?thesis using a b r by blast
qed

end
